theory Spec2Isabelle
  imports
    Main
    "HOL-Library.Word"
    "HOL-Library.Sublist"
    "HOL-Library.AList"
    "HOL-Library.Char_ord"
    "HOL-Library.List_Lexorder"
begin

section \<open>Basic types of the embedding\<close>

text \<open>
  A Go \<^verbatim>\<open>[]byte\<close> is a list of 8-bit words, a Go \<^verbatim>\<open>string\<close> is an Isabelle string
  (both are byte sequences), and \<^verbatim>\<open>int64\<close> is a 64-bit word read with \<open>sint\<close>.
  Go's \<^verbatim>\<open>int\<close> (lengths, indices, counts) is \<open>int\<close>; where the source narrows it
  (\<^verbatim>\<open>uint32(...)\<close>) the reduction modulo \<open>2 ^ 32\<close> is written out.

  An \<^verbatim>\<open>error\<close> value is \<open>Err msg\<close> with the message of the source
  (\<^verbatim>\<open>errors.New\<close>, \<^verbatim>\<open>fmt.Errorf\<close>); a run-time panic is \<open>Panic msg\<close>. Both travel in the
  left summand of a result; callers that swallow errors tell them apart.
\<close>

type_synonym byte = "8 word"
type_synonym bytes = "byte list"
type_synonym int64 = "64 word"

datatype error = Err string | Panic string

fun is_Panic :: "error \<Rightarrow> bool" where
  "is_Panic (Panic m) = True"
| "is_Panic (Err m) = False"

text \<open>The panic of a method call or field access through a nil pointer.\<close>

definition nil_dereference :: error where
  "nil_dereference = Panic ''invalid memory address or nil pointer dereference''"

text \<open>The conversions \<^verbatim>\<open>string(b)\<close> and \<^verbatim>\<open>[]byte(s)\<close>.\<close>

definition string_of_bytes :: "bytes \<Rightarrow> string" where
  "string_of_bytes b = map (\<lambda>x. char_of (unat x)) b"

definition bytes_of_string :: "string \<Rightarrow> bytes" where
  "bytes_of_string s = map (\<lambda>c. of_nat (of_char c)) s"

text \<open>
  Slice expressions \<^verbatim>\<open>s[lo:hi]\<close>, \<^verbatim>\<open>s[lo:]\<close> and \<^verbatim>\<open>s[:hi]\<close>. A slice is modelled with
  capacity equal to its length, so every index past the length panics. The one slice of
  the source whose array is known to be longer is the blob that \<^verbatim>\<open>ioutil.ReadAll\<close> returns; it
  is the pair of its elements and the rest of its array, \<open>spare\<close>, and the upper bound of
  \<^verbatim>\<open>s[:hi]\<close> may reach into the spare part (\<open>slice_to_cap\<close>). The bound that \<^verbatim>\<open>s[lo:]\<close> leaves out
  is the length, not the capacity.
\<close>

definition slice :: "'a list \<Rightarrow> int \<Rightarrow> int \<Rightarrow> error + 'a list" where
  "slice s lo hi =
     (if 0 \<le> lo \<and> lo \<le> hi \<and> hi \<le> int (length s)
      then Inr (take (nat (hi - lo)) (drop (nat lo) s))
      else Inl (Panic ''slice bounds out of range''))"

definition slice_from :: "'a list \<Rightarrow> int \<Rightarrow> error + 'a list" where
  "slice_from s lo = slice s lo (int (length s))"

definition slice_to :: "'a list \<Rightarrow> int \<Rightarrow> error + 'a list" where
  "slice_to s hi = slice s 0 hi"

definition slice_to_cap :: "'a list \<Rightarrow> 'a list \<Rightarrow> int \<Rightarrow> error + 'a list" where
  "slice_to_cap s spare hi =
     (if 0 \<le> hi \<and> hi \<le> int (length s + length spare)
      then Inr (take (nat hi) (s @ spare))
      else Inl (Panic ''slice bounds out of range''))"

text \<open>The builtin \<^verbatim>\<open>copy(dst, src)\<close>: the first \<open>min (len dst) (len src)\<close> elements are replaced.\<close>

definition copy_into :: "'a list \<Rightarrow> 'a list \<Rightarrow> 'a list" where
  "copy_into dst src =
     take (min (length dst) (length src)) src @ drop (min (length dst) (length src)) dst"

text \<open>\<^verbatim>\<open>strings.Contains(s, substr)\<close>.\<close>

fun Contains :: "string \<Rightarrow> string \<Rightarrow> bool" where
  "Contains [] substr = (substr = [])"
| "Contains (c # s) substr = (prefix substr (c # s) \<or> Contains s substr)"

text \<open>Decimal formatting of an integer, as \<^verbatim>\<open>%v\<close> prints an \<^verbatim>\<open>int64\<close>.\<close>

definition digit_char :: "nat \<Rightarrow> char" where
  "digit_char d = ''0123456789'' ! d"

fun digits :: "nat \<Rightarrow> string" where
  "digits n = (if n < 10 then [digit_char n] else digits (n div 10) @ [digit_char (n mod 10)])"

declare digits.simps [simp del]

definition FormatInt :: "int \<Rightarrow> string" where
  "FormatInt i = (if i < 0 then CHR ''-'' # digits (nat (- i)) else digits (nat i))"

text \<open>\<^verbatim>\<open>base64.StdEncoding.EncodeToString\<close>: RFC 4648 with padding.\<close>

definition encodeStd :: string where
  "encodeStd = ''ABCDEFGHIJKLMNOPQRSTUVWXYZabcdefghijklmnopqrstuvwxyz0123456789+/''"

fun EncodeToString :: "bytes \<Rightarrow> string" where
  "EncodeToString [] = []"
| "EncodeToString [a] =
     (let v = unat a * 65536
      in [encodeStd ! (v div 262144), encodeStd ! (v div 4096 mod 64), CHR ''='', CHR ''=''])"
| "EncodeToString [a, b] =
     (let v = unat a * 65536 + unat b * 256
      in [encodeStd ! (v div 262144), encodeStd ! (v div 4096 mod 64),
          encodeStd ! (v div 64 mod 64), CHR ''=''])"
| "EncodeToString (a # b # c # rest) =
     (let v = unat a * 65536 + unat b * 256 + unat c
      in [encodeStd ! (v div 262144), encodeStd ! (v div 4096 mod 64),
          encodeStd ! (v div 64 mod 64), encodeStd ! (v mod 64)] @ EncodeToString rest)"

section \<open>The rendezvous backend's freshness check (storage\_hashmap.go)\<close>

text \<open>
  Of \<^verbatim>\<open>hashmapStorage\<close> only the high-water mark \<^verbatim>\<open>Latest\<close> is state; nodes, rules and
  signatures are configuration that \<^verbatim>\<open>updateLatest\<close> does not read. The wall clock
  \<^verbatim>\<open>time.Now().UnixNano()\<close> is the argument \<open>now\<close>; the addition wraps as \<^verbatim>\<open>int64\<close> does.
\<close>

record hashmapStorage =
  Latest :: int64

definition updateLatest :: "int64 \<Rightarrow> hashmapStorage \<Rightarrow> int64 \<Rightarrow> error option \<times> hashmapStorage" where
  "updateLatest now s timeStamp =
     (if sint timeStamp > sint (now + 5 * 1000000000)
      then (Some (Err ''invalid future timestamp''), s)
      else if sint (Latest s) > sint timeStamp
      then (Some (Err ''stale timestamp''), s)
      else (None, s\<lparr>Latest := timeStamp\<rparr>))"

section \<open>Lookup tables and chat logs\<close>

text \<open>
  A Go map is an association list with distinct keys: \<open>map_of\<close> reads it, \<open>AList.update\<close>
  assigns, \<open>AList.delete\<close> deletes, \<open>length\<close> is \<^verbatim>\<open>len\<close>. The order of the list stands for
  the order in which one \<^verbatim>\<open>range\<close> loop happens to visit the map.
\<close>

type_synonym lookup = "(string \<times> bytes) list"

definition lookup_get :: "lookup \<Rightarrow> string \<Rightarrow> bytes" where
  "lookup_get l key = (case map_of l key of None \<Rightarrow> [] | Some v \<Rightarrow> v)"

definition popKey :: "lookup \<Rightarrow> string \<Rightarrow> bytes \<times> lookup" where
  "popKey l key = (let v = lookup_get l key in (v, AList.delete key l))"

text \<open>
  \<^verbatim>\<open>crypto/rand.Int(rand.Reader, n)\<close> panics when \<open>n \<le> 0\<close> and otherwise returns a
  value in \<open>[0, n)\<close>; \<open>r\<close> is the entropy the reader supplies for this draw.
\<close>

definition rand_Int :: "int \<Rightarrow> int \<Rightarrow> error + int" where
  "rand_Int r n =
     (if n \<le> 0 then Inl (Panic ''crypto/rand: argument to Int is <= 0'') else Inr (r mod n))"

fun getRandom_loop :: "lookup \<Rightarrow> int \<Rightarrow> int \<Rightarrow> string \<times> bytes" where
  "getRandom_loop [] i c = ('''', [])"
| "getRandom_loop ((k, v) # rest) i c = (if c = i then (k, v) else getRandom_loop rest i (c + 1))"

definition getRandom :: "int \<Rightarrow> lookup \<Rightarrow> error + string \<times> bytes" where
  "getRandom r l =
     (case rand_Int r (int (length l)) of
        Inl e \<Rightarrow> Inl e
      | Inr i \<Rightarrow> Inr (getRandom_loop l i 0))"

definition popRandom :: "int \<Rightarrow> lookup \<Rightarrow> error + (string \<times> bytes) \<times> lookup" where
  "popRandom r l =
     (case getRandom r l of
        Inl e \<Rightarrow> Inl e
      | Inr (k, v) \<Rightarrow> Inr ((k, v), AList.delete k l))"

record chatData =
  Parent :: string
  Timestamp :: int64
  Media :: "string list"
  Message :: string
  TTL :: int64

record ChatLogEntry =
  ID :: string
  Sender :: string
  Sent :: int64
  Received :: int64
  entry_TTL :: int64
  Data :: chatData

type_synonym ChatLog = "(string \<times> ChatLogEntry) list"

definition AddEntry :: "ChatLog \<Rightarrow> ChatLogEntry \<Rightarrow> error option \<times> ChatLog" where
  "AddEntry cl entry =
     (if Sent entry = 0 \<and> Received entry = 0
      then (Some (Err ''no valid timestamp found''), cl)
      else
        (let timestamp = (if Sent entry = 0 then Received entry else Sent entry);
             key = FormatInt (sint timestamp) @ ''-'' @ ID entry
         in (None, AList.update key entry cl)))"

definition HashInLog :: "ChatLog \<Rightarrow> string \<Rightarrow> bool" where
  "HashInLog cl hash = list_ex (\<lambda>(entry, v). Contains entry hash) cl"

definition Sorted :: "ChatLog \<Rightarrow> ChatLogEntry list" where
  "Sorted cl = map (\<lambda>k. the (map_of cl k)) (sort (map fst cl))"

section \<open>Key derivation and lookup generation (crypto.go)\<close>

text \<open>
  The constants of crypto.go. \<^verbatim>\<open>CipherType\<close> and \<^verbatim>\<open>NonceType\<close> are integer enumerations;
  \<^verbatim>\<open>SecretBox\<close> is the only cipher type the source defines.
\<close>

definition secretBoxDecryptionOffset :: int where "secretBoxDecryptionOffset = 40"
definition secretBoxNonceLength :: int where "secretBoxNonceLength = 24"
definition secretBoxKeyLength :: int where "secretBoxKeyLength = 32"
definition lookupHashLength :: int where "lookupHashLength = 24"

type_synonym NonceType = int

definition RandomNonce :: NonceType where "RandomNonce = 0"
definition TimeSeriesNonce :: NonceType where "TimeSeriesNonce = 1"







section \<open>SecretBoxCipher\<close>

text \<open>
  \<^verbatim>\<open>secretbox.Seal\<close> and \<^verbatim>\<open>secretbox.Open\<close> of golang.org/x/crypto/nacl are parameters:
  \<open>Seal sb message nonce key\<close> is the sealed box (authenticator and ciphertext) and
  \<open>Open sb box nonce key\<close> the opened message, \<open>None\<close> when authentication fails.
  The randomness and the clock that \<^verbatim>\<open>genNonce\<close> reads are arguments too: \<open>rnd j\<close> are the
  bytes \<^verbatim>\<open>rand.Read\<close> delivers for chunk \<open>j\<close> and \<open>unix j\<close> is \<^verbatim>\<open>time.Now().Unix()\<close> then.

  With \<^verbatim>\<open>ChunkSize = 0\<close> the loop of \<^verbatim>\<open>Encrypt\<close> never advances; \<open>Encrypt_loop\<close> is
  therefore a partial function and \<open>None\<close> means that the call does not return.

  Go's \<^verbatim>\<open>int\<close> has 64 bits here and \<open>wrap_int\<close> is the value a sum of two of them has.
  \<^verbatim>\<open>Decrypt\<close> adds \<^verbatim>\<open>secretBoxDecryptionOffset\<close> to the chunk size, which wraps around for a
  chunk size within 40 of the largest \<^verbatim>\<open>int\<close>. The index sums \<^verbatim>\<open>i + chunkSize\<close> of the two
  loops need no wrap: at \<open>i = 0\<close> the sum is \<^verbatim>\<open>chunkSize\<close>, and a later iteration is reached only
  with \<^verbatim>\<open>chunkSize < len(data)\<close>, where the sum is below twice the length of a slice.
\<close>

definition wrap_int :: "int \<Rightarrow> int" where
  "wrap_int x = (x + 2 ^ 63) mod 2 ^ 64 - 2 ^ 63"

record secretbox =
  Seal :: "bytes \<Rightarrow> bytes \<Rightarrow> bytes \<Rightarrow> bytes"
  Open :: "bytes \<Rightarrow> bytes \<Rightarrow> bytes \<Rightarrow> bytes option"

record SecretBoxCipher =
  Nonce :: NonceType
  ChunkSize :: int

definition genRandBytes :: "bytes \<Rightarrow> nat \<Rightarrow> bytes" where
  "genRandBytes r l = copy_into (replicate l 0) r"

definition PutUint64 :: "64 word \<Rightarrow> bytes" where
  "PutUint64 v = map (\<lambda>i. ucast (drop_bit (8 * i) v)) [0..<8]"

definition genTimeStampNonce :: "bytes \<Rightarrow> int64 \<Rightarrow> nat \<Rightarrow> bytes" where
  "genTimeStampNonce r unix l =
     (let nonce = genRandBytes r l; timeBytes = PutUint64 unix
      in copy_into nonce (take 4 timeBytes))"

definition genNonce :: "SecretBoxCipher \<Rightarrow> bytes \<Rightarrow> int64 \<Rightarrow> bytes" where
  "genNonce s r unix =
     (if Nonce s = RandomNonce then genRandBytes r (nat secretBoxNonceLength)
      else if Nonce s = TimeSeriesNonce then genTimeStampNonce r unix (nat secretBoxNonceLength)
      else genRandBytes r (nat secretBoxNonceLength))"

partial_function (option) Encrypt_loop ::
  "secretbox \<Rightarrow> (nat \<Rightarrow> bytes) \<Rightarrow> (nat \<Rightarrow> int64) \<Rightarrow> SecretBoxCipher \<Rightarrow> bytes \<Rightarrow> bytes
     \<Rightarrow> int \<Rightarrow> nat \<Rightarrow> bytes \<Rightarrow> (error + bytes) option" where
  "Encrypt_loop sb rnd unix s data k i j encryptedData =
     (if i < int (length data) then
        (case (if int (length data) - i \<ge> ChunkSize s
               then slice data i (i + ChunkSize s) else slice_from data i) of
           Inl e \<Rightarrow> Some (Inl e)
         | Inr chunk \<Rightarrow>
             Encrypt_loop sb rnd unix s data k (i + ChunkSize s) (Suc j)
               (encryptedData @
                 (let nonce = genNonce s (rnd j) (unix j);
                      n = copy_into (replicate (nat secretBoxNonceLength) 0) nonce
                  in n @ Seal sb chunk n k)))
      else Some (Inr encryptedData))"

definition Encrypt ::
  "secretbox \<Rightarrow> (nat \<Rightarrow> bytes) \<Rightarrow> (nat \<Rightarrow> int64) \<Rightarrow> SecretBoxCipher \<Rightarrow> bytes \<Rightarrow> bytes
     \<Rightarrow> (error + bytes) option" where
  "Encrypt sb rnd unix s data key =
     (if int (length key) \<noteq> secretBoxKeyLength then Some (Inl (Err ''invalid key length''))
      else Encrypt_loop sb rnd unix s data
             (copy_into (replicate (nat secretBoxKeyLength) 0) key) 0 0 [])"

function Decrypt_loop ::
  "secretbox \<Rightarrow> int \<Rightarrow> bytes \<Rightarrow> bytes \<Rightarrow> int \<Rightarrow> bytes \<Rightarrow> error + bytes" where
  "Decrypt_loop sb chunkSize data k i decryptedData =
     (if i < int (length data) then
        (case (if int (length data) - i \<ge> chunkSize
               then slice data i (i + chunkSize)
               else slice_from data i) of
           Inl e \<Rightarrow> Inl e
         | Inr chunk \<Rightarrow>
             (case slice_to chunk secretBoxNonceLength of
                Inl e \<Rightarrow> Inl e
              | Inr np \<Rightarrow>
                  (case slice_from chunk secretBoxNonceLength of
                     Inl e \<Rightarrow> Inl e
                   | Inr box \<Rightarrow>
                       (case Open sb box (copy_into (replicate (nat secretBoxNonceLength) 0) np) k of
                          None \<Rightarrow> Inl (Err ''decrypt failed'')
                        | Some decryptedChunk \<Rightarrow>
                            Decrypt_loop sb chunkSize data k (i + chunkSize)
                              (decryptedData @ decryptedChunk)))))
      else Inr decryptedData)"
  by pat_completeness auto
termination
  apply (relation "measure (\<lambda>(sb, chunkSize, data, k, i, decryptedData). nat (int (length data) - i))")
   apply (auto simp: slice_def slice_to_def slice_from_def secretBoxNonceLength_def split: if_splits)
  done

declare Decrypt_loop.simps [simp del]

definition Decrypt :: "secretbox \<Rightarrow> SecretBoxCipher \<Rightarrow> bytes \<Rightarrow> bytes \<Rightarrow> error + bytes" where
  "Decrypt sb s data key =
     (let chunkSize = wrap_int (ChunkSize s + secretBoxDecryptionOffset)
      in if int (length key) \<noteq> secretBoxKeyLength then Inl (Err ''invalid key length'')
         else Decrypt_loop sb chunkSize data
                (copy_into (replicate (nat secretBoxKeyLength) 0) key) 0 [])"


section \<open>Chats and the session's persisted state (session.go)\<close>

text \<open>
  A peer's \<^verbatim>\<open>strategy\<close> holds its rendezvous backend (a \<^verbatim>\<open>hashmapStorage\<close>, whose \<^verbatim>\<open>Latest\<close>
  is saved with the chat), its blob backend (an \<^verbatim>\<open>ipfsStorage\<close>, stateless: its reads and
  writes are answers of the environment below) and its cipher. The key of a \<^verbatim>\<open>Peers\<close> entry
  is the peer's ID.
\<close>

record strategy =
  Rendezvous :: hashmapStorage
  Cipher :: SecretBoxCipher

record chatPeer =
  peer_ID :: string
  Alias :: string
  Strategy :: strategy

record chatSettings =
  MaxTTL :: int64

record chat =
  chat_ID :: string
  PeerID :: string
  LastSent :: string
  Peers :: "(string \<times> chatPeer) list"
  Settings :: chatSettings

definition maxMessageSize :: int where "maxMessageSize = 250000"
definition defaultChatTTL :: int64 where "defaultChatTTL = 604800"

definition chat_TTL :: "chat \<Rightarrow> int64" where
  "chat_TTL c = (if sint (MaxTTL (Settings c)) \<le> 0 then defaultChatTTL else MaxTTL (Settings c))"

text \<open>
  The session stores every value gob-encoded and encrypted under the profile key in the
  local key-value store. The embedding keeps the decoded value under the same key path:
  \<open>session_get\<close> fails on an absent key (the gob decoder's \<^verbatim>\<open>EOF\<close> on the empty value Bolt
  returns) and decoding a value of another type fails. \<open>blob_sent\<close> and \<open>rendezvous_sent\<close>
  record every payload handed to \<^verbatim>\<open>Storage.Set\<close> and \<^verbatim>\<open>Rendezvous.Set\<close>.
\<close>

datatype stored = ChatGob chat | LookupGob lookup | ChatLogGob ChatLog

record world =
  kv :: "string \<rightharpoonup> stored"
  blob_sent :: "bytes list"
  rendezvous_sent :: "bytes list"

text \<open>
  What one operation reads from outside the session is the environment \<open>ev\<close>: the
  profile ID, which writes to the local store fail, the clock, the NaCl primitives, the
  verified payload (timestamp and message) a peer's rendezvous endpoint serves, the blob
  network's answers, the JSON and base64 decoders, and the randomness (\<open>rand_draw k\<close> for
  the \<open>k\<close>-th \<^verbatim>\<open>rand.Int\<close>, \<open>nonce_rand k\<close> and \<open>nonce_unix k\<close> for the \<open>k\<close>-th \<^verbatim>\<open>Encrypt\<close>).

  A read of a peer's blob backend (\<^verbatim>\<open>ipfsStorage.Get\<close>, \<^verbatim>\<open>getFirstSuccess\<close>, \<^verbatim>\<open>getFromIPFS\<close>)
  has one of three answers. \<open>Fetch_error\<close>: no read node is configured, the read rule is
  not implemented, or every node failed with an error (\<^verbatim>\<open>no servers available\<close>).
  \<open>No_response\<close>: the request to a node failed in transport; \<^verbatim>\<open>getFromIPFS\<close> does not test the
  error of \<^verbatim>\<open>client.Do\<close> and reads \<^verbatim>\<open>resp.Body\<close> of the nil response. \<open>Body b spare\<close>: a node
  answered and \<^verbatim>\<open>ioutil.ReadAll\<close> returned the bytes \<open>b\<close> in an array whose rest is \<open>spare\<close>.
\<close>

datatype blob_answer = Fetch_error string | No_response | Body bytes bytes

record env =
  profile_ID :: string
  kv_Set_error :: "string \<Rightarrow> error option"
  clock_UnixNano :: int64
  nacl :: secretbox
  rendezvous_fetch :: "string \<Rightarrow> error + int64 \<times> bytes"
  blob_fetch :: "string \<Rightarrow> string \<Rightarrow> blob_answer"
  blob_Set :: "bytes \<Rightarrow> error + string"
  rendezvous_Set :: "bytes \<Rightarrow> error option"
  json_Unmarshal :: "bytes \<Rightarrow> error + chatData"
  json_Marshal :: "chatData \<Rightarrow> error + bytes"
  json_Marshal_log :: "ChatLogEntry list \<Rightarrow> error + bytes"
  DecodeString :: "string \<Rightarrow> error + bytes"
  rand_draw :: "nat \<Rightarrow> int"
  nonce_rand :: "nat \<Rightarrow> nat \<Rightarrow> bytes"
  nonce_unix :: "nat \<Rightarrow> nat \<Rightarrow> int64"

definition session_set :: "env \<Rightarrow> world \<Rightarrow> string \<Rightarrow> stored \<Rightarrow> error option \<times> world" where
  "session_set ev w key v =
     (case kv_Set_error ev key of
        Some e \<Rightarrow> (Some e, w)
      | None \<Rightarrow> (None, w\<lparr>kv := (kv w)(key \<mapsto> v)\<rparr>))"

definition session_get :: "world \<Rightarrow> string \<Rightarrow> error + stored" where
  "session_get w key = (case kv w key of None \<Rightarrow> Inl (Err ''EOF'') | Some v \<Rightarrow> Inr v)"

definition config_key :: "env \<Rightarrow> string \<Rightarrow> string" where
  "config_key ev chatID = ''chats/'' @ chatID @ ''/'' @ profile_ID ev @ ''/config''"

definition lookup_key :: "env \<Rightarrow> string \<Rightarrow> string \<Rightarrow> string" where
  "lookup_key ev chatID peerID = ''chats/'' @ chatID @ ''/'' @ profile_ID ev @ ''/lookups/'' @ peerID"

definition chatlog_key :: "env \<Rightarrow> string \<Rightarrow> string" where
  "chatlog_key ev chatID = ''chats/'' @ chatID @ ''/'' @ profile_ID ev @ ''/chatlog''"

definition gob_mismatch :: error where
  "gob_mismatch = Err ''gob: type mismatch''"

definition getChat :: "env \<Rightarrow> world \<Rightarrow> string \<Rightarrow> error + chat" where
  "getChat ev w chatID =
     (case session_get w (config_key ev chatID) of
        Inl e \<Rightarrow> Inl e
      | Inr (ChatGob c) \<Rightarrow> Inr c
      | Inr _ \<Rightarrow> Inl gob_mismatch)"

definition setChat :: "env \<Rightarrow> world \<Rightarrow> string \<Rightarrow> chat \<Rightarrow> error option \<times> world" where
  "setChat ev w chatID c = session_set ev w (config_key ev chatID) (ChatGob c)"

definition getLookup :: "env \<Rightarrow> world \<Rightarrow> string \<Rightarrow> string \<Rightarrow> error + lookup" where
  "getLookup ev w chatID peerID =
     (case session_get w (lookup_key ev chatID peerID) of
        Inl e \<Rightarrow> Inl e
      | Inr (LookupGob l) \<Rightarrow> Inr l
      | Inr _ \<Rightarrow> Inl gob_mismatch)"

definition setLookup :: "env \<Rightarrow> world \<Rightarrow> string \<Rightarrow> string \<Rightarrow> lookup \<Rightarrow> error option \<times> world" where
  "setLookup ev w chatID peerID l = session_set ev w (lookup_key ev chatID peerID) (LookupGob l)"

definition GetChatLog :: "env \<Rightarrow> world \<Rightarrow> string \<Rightarrow> error + ChatLog" where
  "GetChatLog ev w chatID =
     (case session_get w (chatlog_key ev chatID) of
        Inl e \<Rightarrow> Inl e
      | Inr (ChatLogGob cl) \<Rightarrow> Inr cl
      | Inr _ \<Rightarrow> Inl gob_mismatch)"

definition setChatLog :: "env \<Rightarrow> world \<Rightarrow> string \<Rightarrow> ChatLog \<Rightarrow> error option \<times> world" where
  "setChatLog ev w chatID cl = session_set ev w (chatlog_key ev chatID) (ChatLogGob cl)"

definition SortedJSON :: "env \<Rightarrow> ChatLog \<Rightarrow> error + bytes" where
  "SortedJSON ev cl = json_Marshal_log ev (Sorted cl)"

text \<open>
  \<^verbatim>\<open>hashmapStorage.Get\<close>: the node loop, signature and multihash checks are the
  environment's answer \<open>rendezvous_fetch\<close>; the freshness check is \<open>updateLatest\<close>.
\<close>

definition Rendezvous_Get :: "env \<Rightarrow> string \<Rightarrow> hashmapStorage \<Rightarrow> (error + bytes) \<times> hashmapStorage" where
  "Rendezvous_Get ev peerID s =
     (case rendezvous_fetch ev peerID of
        Inl e \<Rightarrow> (Inl e, s)
      | Inr (timeStamp, msg) \<Rightarrow>
          (case updateLatest (clock_UnixNano ev) s timeStamp of
             (Some e, s') \<Rightarrow> (Inl e, s')
           | (None, s') \<Rightarrow> (Inr msg, s')))"

text \<open>
  \<^verbatim>\<open>ipfsStorage.Get\<close>. The array of the slice that \<^verbatim>\<open>ioutil.ReadAll\<close> returns holds at least
  512 bytes, the capacity it starts with; what the environment does not say of it is zero.
\<close>

definition Storage_Get :: "env \<Rightarrow> string \<Rightarrow> string \<Rightarrow> error + bytes \<times> bytes" where
  "Storage_Get ev peerID hash =
     (case blob_fetch ev peerID hash of
        Fetch_error m \<Rightarrow> Inl (Err m)
      | No_response \<Rightarrow> Inl nil_dereference
      | Body b spare \<Rightarrow> Inr (b, spare @ replicate (512 - (length b + length spare)) 0))"

text \<open>
  The rendezvous backend is reached through a pointer, so the mark \<^verbatim>\<open>Get\<close> advanced is part
  of the chat value that \<^verbatim>\<open>setChat\<close> saves afterwards.
\<close>

definition set_Rendezvous :: "chat \<Rightarrow> string \<Rightarrow> hashmapStorage \<Rightarrow> chat" where
  "set_Rendezvous c peerID r =
     c\<lparr>Peers := map (\<lambda>(k, p). if k = peerID then (k, p\<lparr>Strategy := (Strategy p)\<lparr>Rendezvous := r\<rparr>\<rparr>) else (k, p))
                    (Peers c)\<rparr>"

text \<open>
  \<^verbatim>\<open>getRendezvousHash\<close> has the single result \<^verbatim>\<open>hash\<close>: every error path returns the
  named result as it stands, which is empty until the pointer is decrypted. Only a panic
  leaves through the left summand.
\<close>

definition getRendezvousHash :: "env \<Rightarrow> world \<Rightarrow> string \<Rightarrow> string \<Rightarrow> (error + string) \<times> world" where
  "getRendezvousHash ev w chatID peerID =
     (case getChat ev w chatID of
        Inl e \<Rightarrow> (Inr '''', w)
      | Inr c \<Rightarrow>
     (case getLookup ev w chatID peerID of
        Inl e \<Rightarrow> (Inr '''', w)
      | Inr l \<Rightarrow>
     (case map_of (Peers c) peerID of
        None \<Rightarrow> (Inl nil_dereference, w)
      | Some peer \<Rightarrow>
     (case Rendezvous_Get ev peerID (Rendezvous (Strategy peer)) of
        (Inl e, r) \<Rightarrow> (if is_Panic e then (Inl e, w) else (Inr '''', w))
      | (Inr rBytes, r) \<Rightarrow>
     (case slice_to rBytes lookupHashLength of
        Inl e \<Rightarrow> (Inl e, w)
      | Inr rTag \<Rightarrow>
     (case popKey l (EncodeToString rTag) of (rKey, l') \<Rightarrow>
     (case setLookup ev w chatID peerID l' of
        (Some e, w1) \<Rightarrow> (if is_Panic e then (Inl e, w1) else (Inr '''', w1))
      | (None, w1) \<Rightarrow>
     (case slice_from rBytes lookupHashLength of
        Inl e \<Rightarrow> (Inl e, w1)
      | Inr rCipherText \<Rightarrow>
     (case Decrypt (nacl ev) (Cipher (Strategy peer)) rCipherText rKey of
        Inl e \<Rightarrow> (if is_Panic e then (Inl e, w1) else (Inr '''', w1))
      | Inr hashBytes \<Rightarrow>
     (case GetChatLog ev w1 chatID of
        Inl e \<Rightarrow> (if is_Panic e then (Inl e, w1) else (Inr (string_of_bytes hashBytes), w1))
      | Inr cl \<Rightarrow>
          if HashInLog cl (string_of_bytes hashBytes) then (Inr '''', w1)
          else
            (case setChat ev w1 chatID (set_Rendezvous c peerID r) of
               (Some e, w2) \<Rightarrow> (if is_Panic e then (Inl e, w2) else (Inr '''', w2))
             | (None, w2) \<Rightarrow> (Inr (string_of_bytes hashBytes), w2))))))))))))"

definition retrieveMessage :: "env \<Rightarrow> world \<Rightarrow> string \<Rightarrow> string \<Rightarrow> string \<Rightarrow> (error + chatData) \<times> world" where
  "retrieveMessage ev w chatID hash peerID =
     (case getChat ev w chatID of
        Inl e \<Rightarrow> (Inl e, w)
      | Inr c \<Rightarrow>
     (case getLookup ev w chatID peerID of
        Inl e \<Rightarrow> (Inl e, w)
      | Inr l \<Rightarrow>
     (case map_of (Peers c) peerID of
        None \<Rightarrow> (Inl nil_dereference, w)
      | Some peer \<Rightarrow>
     (case Storage_Get ev peerID hash of
        Inl e \<Rightarrow> (Inl e, w)
      | Inr (b, spare) \<Rightarrow>
     (case slice_to_cap b spare lookupHashLength of
        Inl e \<Rightarrow> (Inl e, w)
      | Inr tag \<Rightarrow>
     (case popKey l (EncodeToString tag) of (key, l') \<Rightarrow>
        if length key = 0 then (Inl (Err ''no key''), w)
        else
     (case setLookup ev w chatID peerID l' of
        (Some e, w1) \<Rightarrow> (Inl e, w1)
      | (None, w1) \<Rightarrow>
     (case slice_from b lookupHashLength of
        Inl e \<Rightarrow> (Inl e, w1)
      | Inr cipherText \<Rightarrow>
     (case Decrypt (nacl ev) (Cipher (Strategy peer)) cipherText key of
        Inl e \<Rightarrow> (Inl e, w1)
      | Inr d \<Rightarrow>
     (case json_Unmarshal ev d of
        Inl e \<Rightarrow> (Inl e, w1)
      | Inr data \<Rightarrow>
     (case setChat ev w1 chatID c of
        (Some e, w2) \<Rightarrow> (Inl e, w2)
      | (None, w2) \<Rightarrow> (Inr data, w2))))))))))))"

definition logChatData :: "env \<Rightarrow> world \<Rightarrow> string \<Rightarrow> string \<Rightarrow> string \<Rightarrow> chatData \<Rightarrow> error option \<times> world" where
  "logChatData ev w chatID peerID hash data =
     (case GetChatLog ev w chatID of
        Inl e \<Rightarrow> (Some e, w)
      | Inr cl \<Rightarrow>
          (case AddEntry cl \<lparr>ID = hash, Sender = peerID, Sent = Timestamp data, Received = 0,
                              entry_TTL = TTL data, Data = data\<rparr> of
             (Some e, cl') \<Rightarrow> (Some e, w)
           | (None, cl') \<Rightarrow> setChatLog ev w chatID cl'))"

text \<open>
  \<^verbatim>\<open>recursivelyLogParents\<close> terminates because every parent it retrieves consumes an entry
  of the peer's saved lookup table.
\<close>

definition lookup_size :: "env \<Rightarrow> world \<Rightarrow> string \<Rightarrow> string \<Rightarrow> nat" where
  "lookup_size ev w chatID peerID =
     (case kv w (lookup_key ev chatID peerID) of Some (LookupGob l) \<Rightarrow> length l | _ \<Rightarrow> 0)"

lemma delete_shorter:
  "map_of l k = Some v \<Longrightarrow> length (AList.delete k l) < length l"
proof (induction l)
  case Nil
  then show ?case by simp
next
  case (Cons a l)
  have le: "length (AList.delete k l) \<le> length l"
    by (simp add: AList.delete_eq)
  show ?case
  proof (cases "fst a = k")
    case True
    then show ?thesis using le by (cases a) simp
  next
    case False
    then show ?thesis using Cons by (cases a) (auto split: if_splits)
  qed
qed

lemma config_key_neq_lookup_key: "config_key ev chatID \<noteq> lookup_key ev chatID peerID"
  by (simp add: config_key_def lookup_key_def)

lemma chatlog_key_neq_lookup_key: "chatlog_key ev chatID \<noteq> lookup_key ev chatID peerID"
  by (simp add: chatlog_key_def lookup_key_def)

lemma session_set_cases:
  assumes "session_set ev w key v = (r, w')"
  shows "(r = None \<and> w' = w\<lparr>kv := (kv w)(key \<mapsto> v)\<rparr>) \<or> (r \<noteq> None \<and> w' = w)"
  using assms by (auto simp: session_set_def split: option.splits)

lemma getLookup_Inr:
  "getLookup ev w chatID peerID = Inr l \<longleftrightarrow> kv w (lookup_key ev chatID peerID) = Some (LookupGob l)"
  by (auto simp: getLookup_def session_get_def split: option.splits stored.splits)

lemma popKey_shorter:
  assumes "popKey l tag = (key, l')" and "key \<noteq> []"
  shows "length l' < length l"
proof -
  from assms have "map_of l tag = Some key"
    by (auto simp: popKey_def lookup_get_def Let_def split: option.splits)
  moreover from assms have "l' = AList.delete tag l"
    by (simp add: popKey_def Let_def)
  ultimately show ?thesis by (simp add: delete_shorter)
qed

lemma retrieveMessage_consumes:
  assumes "retrieveMessage ev w chatID hash peerID = (Inr d, w')"
  shows "lookup_size ev w' chatID peerID < lookup_size ev w chatID peerID"
proof -
  from assms obtain c l b tag key l' w1 where
    gl: "getLookup ev w chatID peerID = Inr l" and
    pk: "popKey l (EncodeToString tag) = (key, l')" and
    ne: "key \<noteq> []" and
    sl: "setLookup ev w chatID peerID l' = (None, w1)" and
    sc: "setChat ev w1 chatID c = (None, w')"
    by (auto simp: retrieveMessage_def split: sum.splits option.splits prod.splits if_splits)
  from sl have w1: "w1 = w\<lparr>kv := (kv w)(lookup_key ev chatID peerID \<mapsto> LookupGob l')\<rparr>"
    using session_set_cases [of ev w "lookup_key ev chatID peerID" "LookupGob l'" None w1]
    by (simp add: setLookup_def)
  from sc have w': "w' = w1\<lparr>kv := (kv w1)(config_key ev chatID \<mapsto> ChatGob c)\<rparr>"
    using session_set_cases [of ev w1 "config_key ev chatID" "ChatGob c" None w']
    by (simp add: setChat_def)
  have "lookup_size ev w' chatID peerID = length l'"
    using config_key_neq_lookup_key [of ev chatID peerID]
    by (simp add: lookup_size_def w' w1)
  moreover have "lookup_size ev w chatID peerID = length l"
    using gl by (simp add: lookup_size_def getLookup_Inr)
  ultimately show ?thesis using popKey_shorter [OF pk ne] by simp
qed

lemma logChatData_lookup_size:
  assumes "logChatData ev w chatID peerID hash d = (r, w')"
  shows "lookup_size ev w' chatID peerID' = lookup_size ev w chatID peerID'"
proof -
  from assms have "w' = w \<or> (\<exists>cl. w' = w\<lparr>kv := (kv w)(chatlog_key ev chatID \<mapsto> ChatLogGob cl)\<rparr>)"
    by (auto simp: logChatData_def setChatLog_def session_set_def
             split: sum.splits option.splits prod.splits)
  then show ?thesis
    using chatlog_key_neq_lookup_key [of ev chatID peerID']
    by (auto simp: lookup_size_def)
qed

function recursivelyLogParents :: "env \<Rightarrow> world \<Rightarrow> string \<Rightarrow> string \<Rightarrow> chatData \<Rightarrow> error option \<times> world" where
  "recursivelyLogParents ev w chatID peerID data =
     (if Parent data = '''' then (None, w)
      else
        (case GetChatLog ev w chatID of
           Inl e \<Rightarrow> (Some e, w)
         | Inr cl \<Rightarrow>
             if HashInLog cl (Parent data) then (None, w)
             else
               (case retrieveMessage ev w chatID (Parent data) peerID of
                  (Inl e, w1) \<Rightarrow> (if e = Err ''no key'' then (None, w1) else (Some e, w1))
                | (Inr parentData, w1) \<Rightarrow>
                    (case logChatData ev w1 chatID peerID (Parent data) parentData of
                       (Some e, w2) \<Rightarrow> (Some e, w2)
                     | (None, w2) \<Rightarrow>
                         if Parent parentData \<noteq> ''''
                         then recursivelyLogParents ev w2 chatID peerID parentData
                         else (None, w2)))))"
  by pat_completeness auto
termination
proof (relation "measure (\<lambda>(ev, w, chatID, peerID, data). lookup_size ev w chatID peerID)", goal_cases)
  case 1
  then show ?case by simp
next
  case (2 ev w chatID peerID data cl x y parentData z w2)
  then show ?case
    using retrieveMessage_consumes [of ev w chatID "Parent data" peerID parentData y]
          logChatData_lookup_size [of ev y chatID peerID "Parent data" parentData None w2 peerID]
    by simp
qed

declare recursivelyLogParents.simps [simp del]

text \<open>
  The loop of \<^verbatim>\<open>RetrieveMessages\<close> over \<^verbatim>\<open>c.Peers\<close>, in the order the \<^verbatim>\<open>range\<close> visits them.
  Each \<^verbatim>\<open>continue\<close> is a call on the rest; a panic is the only way out of the loop.
\<close>

fun RetrieveMessages_loop :: "env \<Rightarrow> string \<Rightarrow> string \<Rightarrow> string list \<Rightarrow> world \<Rightarrow> error option \<times> world" where
  "RetrieveMessages_loop ev chatID self [] w = (None, w)"
| "RetrieveMessages_loop ev chatID self (peerID # rest) w =
     (if peerID = self then RetrieveMessages_loop ev chatID self rest w
      else
        (case getRendezvousHash ev w chatID peerID of
           (Inl e, w1) \<Rightarrow> (Some e, w1)
         | (Inr hash, w1) \<Rightarrow>
             if hash = '''' then RetrieveMessages_loop ev chatID self rest w1
             else
               (case retrieveMessage ev w1 chatID hash peerID of
                  (Inl e, w2) \<Rightarrow>
                    if is_Panic e then (Some e, w2)
                    else RetrieveMessages_loop ev chatID self rest w2
                | (Inr data, w2) \<Rightarrow>
                    (case logChatData ev w2 chatID peerID hash data of
                       (Some e, w3) \<Rightarrow>
                         if is_Panic e then (Some e, w3)
                         else RetrieveMessages_loop ev chatID self rest w3
                     | (None, w3) \<Rightarrow>
                         (case recursivelyLogParents ev w3 chatID peerID data of
                            (Some e, w4) \<Rightarrow>
                              if is_Panic e then (Some e, w4)
                              else RetrieveMessages_loop ev chatID self rest w4
                          | (None, w4) \<Rightarrow> RetrieveMessages_loop ev chatID self rest w4)))))"


text \<open>
  \<^verbatim>\<open>SendMessage\<close>. The result is \<open>None\<close> when an \<^verbatim>\<open>Encrypt\<close> does not return.
\<close>

definition SendMessage :: "env \<Rightarrow> world \<Rightarrow> string \<Rightarrow> bytes \<Rightarrow> ((error + bytes) \<times> world) option" where
  "SendMessage ev w chatID b =
     (if int (length b) > maxMessageSize
      then Some (Inl (Err (''messag sized exceeds max size of '' @ FormatInt maxMessageSize
                           @ '' bytes'')), w)
      else
     (case getChat ev w chatID of
        Inl e \<Rightarrow> Some (Inl e, w)
      | Inr c \<Rightarrow>
     (case json_Unmarshal ev b of
        Inl e \<Rightarrow> Some (Inl e, w)
      | Inr unmarshalled \<Rightarrow>
     (case unmarshalled\<lparr>Parent := LastSent c, Timestamp := clock_UnixNano ev, TTL := chat_TTL c\<rparr> of
        data \<Rightarrow>
     (case json_Marshal ev data of
        Inl e \<Rightarrow> Some (Inr [], w)
      | Inr dataBytes \<Rightarrow>
     (case getLookup ev w chatID (PeerID c) of
        Inl e \<Rightarrow> Some (Inl e, w)
      | Inr l \<Rightarrow>
     (case popRandom (rand_draw ev 0) l of
        Inl e \<Rightarrow> Some (Inl e, w)
      | Inr ((mStoreKey, mStoreValue), l1) \<Rightarrow>
     (case setLookup ev w chatID (PeerID c) l1 of
        (Some e, w1) \<Rightarrow> Some (Inl e, w1)
      | (None, w1) \<Rightarrow>
     (case DecodeString ev mStoreKey of
        Inl e \<Rightarrow> Some (Inl e, w1)
      | Inr mStoreKeyBytes \<Rightarrow>
     (case map_of (Peers c) (PeerID c) of
        None \<Rightarrow> Some (Inl nil_dereference, w1)
      | Some sender \<Rightarrow>
     (case Encrypt (nacl ev) (nonce_rand ev 0) (nonce_unix ev 0) (Cipher (Strategy sender))
             dataBytes mStoreValue of
        None \<Rightarrow> None
      | Some (Inl e) \<Rightarrow> Some (Inl e, w1)
      | Some (Inr cipherText) \<Rightarrow>
     (case w1\<lparr>blob_sent := blob_sent w1 @ [mStoreKeyBytes @ cipherText]\<rparr> of
        w2 \<Rightarrow>
     (case blob_Set ev (mStoreKeyBytes @ cipherText) of
        Inl e \<Rightarrow> Some (Inl e, w2)
      | Inr hash \<Rightarrow>
     (case setChat ev w2 chatID (c\<lparr>LastSent := hash\<rparr>) of
        (Some e, w3) \<Rightarrow> Some (Inl e, w3)
      | (None, w3) \<Rightarrow>
     (case popRandom (rand_draw ev 1) l1 of
        Inl e \<Rightarrow> Some (Inl e, w3)
      | Inr ((rStoreKey, rStoreValue), l2) \<Rightarrow>
     (case setLookup ev w3 chatID (PeerID c) l2 of
        (Some e, w4) \<Rightarrow> Some (Inl e, w4)
      | (None, w4) \<Rightarrow>
     (case DecodeString ev rStoreKey of
        Inl e \<Rightarrow> Some (Inl e, w4)
      | Inr rStoreKeyBytes \<Rightarrow>
     (case Encrypt (nacl ev) (nonce_rand ev 1) (nonce_unix ev 1) (Cipher (Strategy sender))
             (bytes_of_string hash) rStoreValue of
        None \<Rightarrow> None
      | Some (Inl e) \<Rightarrow> Some (Inl e, w4)
      | Some (Inr rCipherText) \<Rightarrow>
     (case w4\<lparr>rendezvous_sent := rendezvous_sent w4 @ [rStoreKeyBytes @ rCipherText]\<rparr> of
        w5 \<Rightarrow>
     (case rendezvous_Set ev (rStoreKeyBytes @ rCipherText) of
        Some e \<Rightarrow> Some (Inl e, w5)
      | None \<Rightarrow>
     (case GetChatLog ev w5 chatID of
        Inl e \<Rightarrow> Some (Inl e, w5)
      | Inr cl \<Rightarrow>
     (case AddEntry cl \<lparr>ID = hash, Sender = PeerID c, Sent = Timestamp data, Received = 0,
                         entry_TTL = TTL data, Data = data\<rparr> of
        (Some e, cl') \<Rightarrow> Some (Inl e, w5)
      | (None, cl') \<Rightarrow>
     (case setChatLog ev w5 chatID cl' of
        (Some e, w6) \<Rightarrow> Some (Inl e, w6)
      | (None, w6) \<Rightarrow> Some (SortedJSON ev cl', w6))))))))))))))))))))))))"


section \<open>Specification-level definitions\<close>

text \<open>
  What the proofs assume of \<^verbatim>\<open>secretbox\<close>: \<^verbatim>\<open>Open\<close> undoes \<^verbatim>\<open>Seal\<close> under the same nonce and
  key, and a sealed box is 16 bytes (\<^verbatim>\<open>secretbox.Overhead\<close>) longer than its message.
\<close>

definition secretbox_ok :: "secretbox \<Rightarrow> bool" where
  "secretbox_ok sb \<longleftrightarrow>
     (\<forall>m n k. Open sb (Seal sb m n k) n k = Some m) \<and> (\<forall>m n k. length (Seal sb m n k) = length m + 16)"

text \<open>
  The ciphertext of one chunk, and of a plaintext chunk by chunk: the closed form of what
  the loop of \<^verbatim>\<open>Encrypt\<close> appends when the chunk size is positive.
\<close>

definition sealed_chunk ::
  "secretbox \<Rightarrow> (nat \<Rightarrow> bytes) \<Rightarrow> (nat \<Rightarrow> int64) \<Rightarrow> SecretBoxCipher \<Rightarrow> bytes \<Rightarrow> nat \<Rightarrow> bytes \<Rightarrow> bytes" where
  "sealed_chunk sb rnd unix s k j chunk =
     (let nonce = genNonce s (rnd j) (unix j);
          n = copy_into (replicate (nat secretBoxNonceLength) 0) nonce
      in n @ Seal sb chunk n k)"

function enc_chunks ::
  "secretbox \<Rightarrow> (nat \<Rightarrow> bytes) \<Rightarrow> (nat \<Rightarrow> int64) \<Rightarrow> SecretBoxCipher \<Rightarrow> bytes \<Rightarrow> bytes \<Rightarrow> nat \<Rightarrow> bytes" where
  "enc_chunks sb rnd unix s k xs j =
     (if xs = [] \<or> ChunkSize s \<le> 0 then []
      else sealed_chunk sb rnd unix s k j (take (nat (ChunkSize s)) xs)
           @ enc_chunks sb rnd unix s k (drop (nat (ChunkSize s)) xs) (Suc j))"
  by pat_completeness auto
termination
  by (relation "measure (\<lambda>(sb, rnd, unix, s, k, xs, j). length xs)") auto

declare enc_chunks.simps [simp del]










section \<open>Example values\<close>

text \<open>Concrete inputs at which the theorems below are instantiated.\<close>

definition example_data :: chatData where
  "example_data = \<lparr>Parent = '''', Timestamp = 15, Media = [], Message = ''hello'', TTL = 604800\<rparr>"

definition example_entry :: "int64 \<Rightarrow> int64 \<Rightarrow> ChatLogEntry" where
  "example_entry sent received =
     \<lparr>ID = ''Qm1'', Sender = ''bob'', Sent = sent, Received = received, entry_TTL = 604800,
      Data = example_data\<rparr>"

text \<open>
  A stand-in for NaCl's secretbox with the two properties above: the authenticator is the
  first 16 bytes of the key and the message is left in the clear.
\<close>

definition example_secretbox :: secretbox where
  "example_secretbox =
     \<lparr>Seal = (\<lambda>m n k. take 16 (k @ replicate 16 0) @ m),
      Open = (\<lambda>box n k. if 16 \<le> length box \<and> take 16 box = take 16 (k @ replicate 16 0)
                          then Some (drop 16 box) else None)\<rparr>"


text \<open>
  A chat of three peers seen from alice's session. Bob's rendezvous pointer names the blob
  \<^verbatim>\<open>QmB\<close>, carol's pointer names \<^verbatim>\<open>QmC\<close>, which the blob network serves. The environment has
  two parameters: what the blob network answers for bob's blob, and the parent that the
  decoded message names (no blob network serves a parent). In \<open>example_env\<close> bob's blob is
  not served and the message has no parent. \<open>example_state\<close> is the local store as a
  function of the saved chat, bob's and carol's lookup tables and the chat log; alice's own
  lookup table is exhausted.
\<close>

definition example_cipher :: SecretBoxCipher where
  "example_cipher = \<lparr>Nonce = RandomNonce, ChunkSize = 16000\<rparr>"

definition example_bytes :: "byte \<Rightarrow> nat \<Rightarrow> bytes" where
  "example_bytes x n = replicate n x"

definition example_sealed :: "bytes \<Rightarrow> string \<Rightarrow> bytes" where
  "example_sealed key plain =
     enc_chunks example_secretbox (\<lambda>j. []) (\<lambda>j. 0) example_cipher key (bytes_of_string plain) 0"

definition example_peer :: "string \<Rightarrow> chatPeer" where
  "example_peer name =
     \<lparr>peer_ID = name, Alias = name,
      Strategy = \<lparr>Rendezvous = \<lparr>Latest = 0\<rparr>, Cipher = example_cipher\<rparr>\<rparr>"

definition example_chat :: chat where
  "example_chat =
     \<lparr>chat_ID = ''c1'', PeerID = ''alice'', LastSent = [],
      Peers = [(''alice'', example_peer ''alice''), (''bob'', example_peer ''bob''),
               (''carol'', example_peer ''carol'')],
      Settings = \<lparr>MaxTTL = 0\<rparr>\<rparr>"

definition example_env_with :: "string \<Rightarrow> blob_answer \<Rightarrow> env" where
  "example_env_with parent bob_blob =
     \<lparr>profile_ID = ''alice'',
      kv_Set_error = (\<lambda>key. None),
      clock_UnixNano = 1000,
      nacl = example_secretbox,
      rendezvous_fetch = (\<lambda>peerID.
        if peerID = ''bob'' then Inr (500, example_bytes 1 24 @ example_sealed (example_bytes 2 32) ''QmB'')
        else if peerID = ''carol'' then Inr (600, example_bytes 3 24 @ example_sealed (example_bytes 4 32) ''QmC'')
        else Inl (Err ''no servers available'')),
      blob_fetch = (\<lambda>peerID hash.
        if peerID = ''carol'' \<and> hash = ''QmC''
        then Body (example_bytes 5 24 @ example_sealed (example_bytes 6 32) ''{}'') []
        else if peerID = ''bob'' \<and> hash = ''QmB'' then bob_blob
        else Fetch_error ''no servers available''),
      blob_Set = (\<lambda>b. Inr ''QmA''),
      rendezvous_Set = (\<lambda>b. None),
      json_Unmarshal = (\<lambda>b. Inr (example_data\<lparr>Parent := parent\<rparr>)),
      json_Marshal = (\<lambda>d. Inr (bytes_of_string (Message d))),
      json_Marshal_log = (\<lambda>entries. Inr (bytes_of_string (concat (map ID entries)))),
      DecodeString = (\<lambda>s. Inr (bytes_of_string s)),
      rand_draw = (\<lambda>k. 0),
      nonce_rand = (\<lambda>k j. []),
      nonce_unix = (\<lambda>k j. 0)\<rparr>"

definition example_env :: env where
  "example_env = example_env_with [] (Fetch_error ''no servers available'')"


definition example_state :: "chat \<Rightarrow> lookup \<Rightarrow> lookup \<Rightarrow> ChatLog \<Rightarrow> world" where
  "example_state c bob carol cl =
     \<lparr>kv = [''chats/c1/alice/config'' \<mapsto> ChatGob c,
             ''chats/c1/alice/chatlog'' \<mapsto> ChatLogGob cl,
             ''chats/c1/alice/lookups/alice'' \<mapsto> LookupGob [],
             ''chats/c1/alice/lookups/bob'' \<mapsto> LookupGob bob,
             ''chats/c1/alice/lookups/carol'' \<mapsto> LookupGob carol],
      blob_sent = [], rendezvous_sent = []\<rparr>"

definition example_world :: world where
  "example_world =
     example_state example_chat
       [(EncodeToString (example_bytes 1 24), example_bytes 2 32)]
       [(EncodeToString (example_bytes 3 24), example_bytes 4 32),
        (EncodeToString (example_bytes 5 24), example_bytes 6 32)]
       []"




section \<open>Freshness of rendezvous payloads\<close>

lemma sint_add_5s:
  fixes now :: int64
  assumes "sint now + 5000000000 < 2 ^ 63"
  shows "sint (now + 5 * 1000000000) = sint now + 5000000000"
proof -
  have lo: "- (2 ^ 63) \<le> sint now"
    using sint_ge [of now] by simp
  have five: "sint (5000000000 :: int64) = 5000000000"
    by simp
  have "sint (now + 5000000000) = signed_take_bit 63 (sint now + 5000000000)"
    by (simp add: sint_word_add five del: sint_numeral)
  also have "\<dots> = sint now + 5000000000"
    using lo assms by (intro signed_take_bit_int_eq_self) simp_all
  finally show ?thesis by simp
qed

lemma sint_succ:
  fixes l :: int64
  assumes "sint l < 2 ^ 63 - 1"
  shows "sint (l + 1) = sint l + 1"
proof -
  have lo: "- (2 ^ 63) \<le> sint l"
    using sint_ge [of l] by simp
  have "sint (l + 1) = signed_take_bit 63 (sint l + 1)"
    by (simp add: sint_word_add)
  also have "\<dots> = sint l + 1"
    using lo assms by (intro signed_take_bit_int_eq_self) simp_all
  finally show ?thesis .
qed

text \<open>
  Claim C1, as the code has it. \<^verbatim>\<open>updateLatest\<close> rejects a timestamp as stale only when it
  is strictly less than the stored mark: a timestamp equal to \<open>Latest\<close> is accepted and
  leaves the mark where it is. \<open>Latest + 1\<close> is accepted and advances the mark, provided it
  is not in the future. A timestamp more than 5,000,000,000 ns ahead of the clock is
  rejected and leaves the mark unchanged. (The clock is taken below \<open>2 ^ 63 - 5 * 10 ^ 9\<close>,
  so that the sum in the future check does not wrap.)
\<close>

theorem updateLatest_freshness:
  "(sint ts \<le> sint now + 5000000000 \<and> sint now + 5000000000 < 2 ^ 63 \<and> ts = Latest s
      \<longrightarrow> updateLatest now s ts = (None, s\<lparr>Latest := ts\<rparr>) \<and> s\<lparr>Latest := ts\<rparr> = s)
   \<and> (sint (Latest s) + 1 \<le> sint now + 5000000000 \<and> sint now + 5000000000 < 2 ^ 63
      \<longrightarrow> updateLatest now s (Latest s + 1) = (None, s\<lparr>Latest := Latest s + 1\<rparr>)
          \<and> sint (Latest (snd (updateLatest now s (Latest s + 1)))) = sint (Latest s) + 1)
   \<and> (sint now + 5000000000 < sint ts
      \<longrightarrow> updateLatest now s ts = (Some (Err ''invalid future timestamp''), s))
   \<and> (sint ts \<le> sint now + 5000000000 \<and> sint now + 5000000000 < 2 ^ 63
      \<longrightarrow> (fst (updateLatest now s ts) = Some (Err ''stale timestamp'') \<longleftrightarrow> sint ts < sint (Latest s))
          \<and> (fst (updateLatest now s ts) = None \<longleftrightarrow> sint (Latest s) \<le> sint ts))"
proof (intro conjI impI)
  assume h: "sint ts \<le> sint now + 5000000000 \<and> sint now + 5000000000 < 2 ^ 63 \<and> ts = Latest s"
  then show "updateLatest now s ts = (None, s\<lparr>Latest := ts\<rparr>)"
    using sint_add_5s [of now] by (auto simp add: updateLatest_def)
  from h show "s\<lparr>Latest := ts\<rparr> = s" by simp
next
  assume h: "sint (Latest s) + 1 \<le> sint now + 5000000000 \<and> sint now + 5000000000 < 2 ^ 63"
  then have lt: "sint (Latest s) < 2 ^ 63 - 1" by simp
  have s1: "sint (Latest s + 1) = sint (Latest s) + 1"
    by (rule sint_succ [OF lt])
  from h s1 show u: "updateLatest now s (Latest s + 1) = (None, s\<lparr>Latest := Latest s + 1\<rparr>)"
    using sint_add_5s [of now] by (auto simp add: updateLatest_def)
  show "sint (Latest (snd (updateLatest now s (Latest s + 1)))) = sint (Latest s) + 1"
    by (simp add: u s1)
next
  assume h: "sint now + 5000000000 < sint ts"
  have "sint ts < 2 ^ 63" using sint_lt [of ts] by simp
  with h have "sint now + 5000000000 < 2 ^ 63" by simp
  with h show "updateLatest now s ts = (Some (Err ''invalid future timestamp''), s)"
    using sint_add_5s [of now] by (auto simp add: updateLatest_def)
next
  assume h: "sint ts \<le> sint now + 5000000000 \<and> sint now + 5000000000 < 2 ^ 63"
  then show "fst (updateLatest now s ts) = Some (Err ''stale timestamp'') \<longleftrightarrow> sint ts < sint (Latest s)"
    using sint_add_5s [of now] by (auto simp add: updateLatest_def)
  from h show "fst (updateLatest now s ts) = None \<longleftrightarrow> sint (Latest s) \<le> sint ts"
    using sint_add_5s [of now] by (auto simp add: updateLatest_def)
qed

theorem updateLatest_freshness_witness:
  "updateLatest 1000 \<lparr>Latest = 7\<rparr> 7 = (None, \<lparr>Latest = 7\<rparr>)
   \<and> updateLatest 1000 \<lparr>Latest = 7\<rparr> 8 = (None, \<lparr>Latest = 8\<rparr>)
   \<and> updateLatest 1000 \<lparr>Latest = 7\<rparr> 5000001001 = (Some (Err ''invalid future timestamp''), \<lparr>Latest = 7\<rparr>)
   \<and> fst (updateLatest 1000 \<lparr>Latest = 7\<rparr> 6) = Some (Err ''stale timestamp'')"
  using updateLatest_freshness [of 7 1000 "\<lparr>Latest = 7\<rparr>"]
        updateLatest_freshness [of 5000001001 1000 "\<lparr>Latest = 7\<rparr>"]
        updateLatest_freshness [of 6 1000 "\<lparr>Latest = 7\<rparr>"]
  by simp

text \<open>
  Claim C1 as stated fails: with the mark at 7 and the clock at 1000, a payload stamped 7
  (equal to the mark) is accepted.
\<close>

theorem updateLatest_equal_counterexample:
  "fst (updateLatest 1000 \<lparr>Latest = 7\<rparr> 7) = None"
  by (simp add: updateLatest_def)

section \<open>Lookup tables\<close>

lemma map_of_delete_other: "t \<noteq> k \<Longrightarrow> map_of (AList.delete k l) t = map_of l t"
  by (simp add: AList.delete_conv')

lemma delete_absent: "map_of l k = None \<Longrightarrow> AList.delete k l = l"
  by (induction l) (auto split: if_splits)

text \<open>
  Claim C8. \<^verbatim>\<open>popKey\<close> returns the key stored under the tag and removes the tag, leaving
  every other tag as it was; for a tag that is not in the table it returns the empty key
  and leaves the table unchanged; so a second \<^verbatim>\<open>popKey\<close> with the same tag returns the
  empty key.
\<close>

theorem popKey_removes_and_returns:
  "fst (popKey l tag) = (case map_of l tag of Some key \<Rightarrow> key | None \<Rightarrow> [])
   \<and> map_of (snd (popKey l tag)) tag = None
   \<and> (\<forall>t. t \<noteq> tag \<longrightarrow> map_of (snd (popKey l tag)) t = map_of l t)
   \<and> (map_of l tag = None \<longrightarrow> popKey l tag = ([], l))
   \<and> fst (popKey (snd (popKey l tag)) tag) = []"
proof (intro conjI allI impI)
  show "fst (popKey l tag) = (case map_of l tag of Some key \<Rightarrow> key | None \<Rightarrow> [])"
    by (simp add: popKey_def lookup_get_def Let_def split: option.splits)
  show gone: "map_of (snd (popKey l tag)) tag = None"
    by (simp add: popKey_def Let_def AList.delete_conv')
  show "map_of (snd (popKey l tag)) t = map_of l t" if "t \<noteq> tag" for t
    using that by (simp add: popKey_def Let_def map_of_delete_other)
  show "popKey l tag = ([], l)" if "map_of l tag = None"
    using that by (simp add: popKey_def lookup_get_def Let_def delete_absent)
  show "fst (popKey (snd (popKey l tag)) tag) = []"
    using gone by (simp add: popKey_def [of "snd (popKey l tag)"] lookup_get_def Let_def)
qed

theorem popKey_removes_and_returns_witness:
  "fst (popKey [(''dGFn'', [1, 2]), (''b3Ro'', [3])] ''dGFn'') = [1, 2]
   \<and> map_of (snd (popKey [(''dGFn'', [1, 2]), (''b3Ro'', [3])] ''dGFn'')) ''dGFn'' = None
   \<and> map_of (snd (popKey [(''dGFn'', [1, 2]), (''b3Ro'', [3])] ''dGFn'')) ''b3Ro'' = Some [3]
   \<and> popKey [(''b3Ro'', [3])] ''dGFn'' = ([], [(''b3Ro'', [3])])
   \<and> fst (popKey (snd (popKey [(''dGFn'', [1, 2]), (''b3Ro'', [3])] ''dGFn'')) ''dGFn'') = []"
  using popKey_removes_and_returns [of "[(''dGFn'', [1, 2]), (''b3Ro'', [3])]" "''dGFn''"]
        popKey_removes_and_returns [of "[(''b3Ro'', [3])]" "''dGFn''"]
  by simp

section \<open>Chat logs\<close>

lemma digits_lt10: "n < 10 \<Longrightarrow> digits n = [digit_char n]"
  by (simp add: digits.simps)

lemma digits_ge10: "10 \<le> n \<Longrightarrow> digits n = digits (n div 10) @ [digit_char (n mod 10)]"
  by (subst digits.simps) simp

lemmas FormatInt_eval = FormatInt_def digits_lt10 digits_ge10 digit_char_def

text \<open>
  Claim C10. \<^verbatim>\<open>AddEntry\<close> fails and leaves the log unchanged when \<^verbatim>\<open>Sent\<close> and \<^verbatim>\<open>Received\<close>
  are both zero. Otherwise it succeeds and stores the entry under the key made of the
  decimal timestamp, a hyphen and the entry's ID, where the timestamp is \<^verbatim>\<open>Sent\<close>, or
  \<^verbatim>\<open>Received\<close> when \<^verbatim>\<open>Sent\<close> is zero; the log afterwards is the old log with that key
  mapped to the entry, whatever was stored there before.
\<close>

theorem AddEntry_spec:
  "(Sent entry = 0 \<and> Received entry = 0
      \<longrightarrow> AddEntry cl entry = (Some (Err ''no valid timestamp found''), cl))
   \<and> (Sent entry \<noteq> 0
      \<longrightarrow> fst (AddEntry cl entry) = None
        \<and> map_of (snd (AddEntry cl entry))
            = (map_of cl)(FormatInt (sint (Sent entry)) @ ''-'' @ ID entry \<mapsto> entry))
   \<and> (Sent entry = 0 \<and> Received entry \<noteq> 0
      \<longrightarrow> fst (AddEntry cl entry) = None
        \<and> map_of (snd (AddEntry cl entry))
            = (map_of cl)(FormatInt (sint (Received entry)) @ ''-'' @ ID entry \<mapsto> entry))"
  by (simp add: AddEntry_def Let_def AList.update_conv')

theorem AddEntry_spec_witness:
  "AddEntry [(''15-Qm1'', example_entry 15 0)] (example_entry 0 0)
     = (Some (Err ''no valid timestamp found''), [(''15-Qm1'', example_entry 15 0)])
   \<and> fst (AddEntry [(''15-Qm1'', example_entry 15 0)] (example_entry 15 7)) = None
   \<and> map_of (snd (AddEntry [(''15-Qm1'', example_entry 15 0)] (example_entry 15 7))) ''15-Qm1''
       = Some (example_entry 15 7)
   \<and> fst (AddEntry [(''15-Qm1'', example_entry 15 0)] (example_entry 0 42)) = None
   \<and> map_of (snd (AddEntry [(''15-Qm1'', example_entry 15 0)] (example_entry 0 42))) ''42-Qm1''
       = Some (example_entry 0 42)
   \<and> map_of (snd (AddEntry [(''15-Qm1'', example_entry 15 0)] (example_entry 0 42))) ''15-Qm1''
       = Some (example_entry 15 0)"
  using AddEntry_spec [of "example_entry 0 0" "[(''15-Qm1'', example_entry 15 0)]"]
        AddEntry_spec [of "example_entry 15 7" "[(''15-Qm1'', example_entry 15 0)]"]
        AddEntry_spec [of "example_entry 0 42" "[(''15-Qm1'', example_entry 15 0)]"]
  by (simp add: example_entry_def FormatInt_eval)

section \<open>Chunked encryption\<close>

lemma length_copy_into [simp]: "length (copy_into dst src) = length dst"
  by (simp add: copy_into_def)

lemma copy_into_same_length: "length src = length dst \<Longrightarrow> copy_into dst src = src"
  by (simp add: copy_into_def)

lemma length_sealed_chunk:
  assumes "\<forall>m n k. length (Seal sb m n k) = length m + 16"
  shows "length (sealed_chunk sb rnd unix s k j chunk) = length chunk + 40"
  using assms by (simp add: sealed_chunk_def Let_def secretBoxNonceLength_def)

lemma Encrypt_loop_done:
  "int (length data) \<le> i \<Longrightarrow> Encrypt_loop sb rnd unix s data k i j acc = Some (Inr acc)"
  by (subst Encrypt_loop.simps) simp

lemma Encrypt_loop_step:
  assumes "0 \<le> i" "i < int (length data)" "0 < ChunkSize s"
  shows "Encrypt_loop sb rnd unix s data k i j acc =
         Encrypt_loop sb rnd unix s data k (i + ChunkSize s) (Suc j)
           (acc @ sealed_chunk sb rnd unix s k j (take (nat (ChunkSize s)) (drop (nat i) data)))"
proof (cases "int (length data) - i \<ge> ChunkSize s")
  case True
  with assms have "slice data i (i + ChunkSize s) = Inr (take (nat (ChunkSize s)) (drop (nat i) data))"
    by (simp add: slice_def)
  with True assms show ?thesis
    by (subst Encrypt_loop.simps) (simp add: sealed_chunk_def)
next
  case False
  with assms have "slice_from data i = Inr (take (nat (ChunkSize s)) (drop (nat i) data))"
    by (simp add: slice_from_def slice_def)
  with False assms show ?thesis
    by (subst Encrypt_loop.simps) (simp add: sealed_chunk_def)
qed

lemma Encrypt_loop_eq:
  assumes "0 < ChunkSize s" "0 \<le> i"
  shows "Encrypt_loop sb rnd unix s data k i j acc
         = Some (Inr (acc @ enc_chunks sb rnd unix s k (drop (nat i) data) j))"
  using assms(2)
proof (induction "nat (int (length data) - i)" arbitrary: i j acc rule: less_induct)
  case less
  show ?case
  proof (cases "i < int (length data)")
    case False
    then have "drop (nat i) data = []" by simp
    with False show ?thesis
      by (simp add: Encrypt_loop_done enc_chunks.simps [of _ _ _ _ _ "[]"])
  next
    case True
    with less.prems have ne: "drop (nat i) data \<noteq> []" by simp
    have step: "Encrypt_loop sb rnd unix s data k i j acc =
         Encrypt_loop sb rnd unix s data k (i + ChunkSize s) (Suc j)
           (acc @ sealed_chunk sb rnd unix s k j (take (nat (ChunkSize s)) (drop (nat i) data)))"
      using Encrypt_loop_step [OF less.prems True assms(1)] .
    have smaller: "nat (int (length data) - (i + ChunkSize s)) < nat (int (length data) - i)"
      using True assms(1) by simp
    have nn: "0 \<le> i + ChunkSize s" using less.prems assms(1) by simp
    have dd: "drop (nat (i + ChunkSize s)) data = drop (nat (ChunkSize s)) (drop (nat i) data)"
      using less.prems assms(1) by (simp add: nat_add_distrib add.commute)
    show ?thesis
      unfolding step less.hyps [OF smaller nn] dd
      using ne assms(1) by (subst (2) enc_chunks.simps) simp
  qed
qed

lemma length_enc_chunks:
  assumes "\<forall>m n k. length (Seal sb m n k) = length m + 16" "0 < ChunkSize s"
  shows "length (enc_chunks sb rnd unix s k xs j)
         = length xs + 40 * ((length xs + nat (ChunkSize s) - 1) div nat (ChunkSize s))"
proof (induction "length xs" arbitrary: xs j rule: less_induct)
  case less
  define C where "C = nat (ChunkSize s)"
  have Cpos: "0 < C" using assms(2) by (simp add: C_def)
  show ?case
  proof (cases "xs = []")
    case True
    then show ?thesis using Cpos by (simp add: enc_chunks.simps C_def)
  next
    case False
    have shorter: "length (drop C xs) < length xs" using False Cpos by simp
    have IH: "length (enc_chunks sb rnd unix s k (drop C xs) (Suc j))
              = length (drop C xs) + 40 * ((length (drop C xs) + C - 1) div C)"
      using less.hyps [OF shorter] by (simp add: C_def)
    have unf: "enc_chunks sb rnd unix s k xs j
               = sealed_chunk sb rnd unix s k j (take C xs) @ enc_chunks sb rnd unix s k (drop C xs) (Suc j)"
      using False assms(2) by (subst enc_chunks.simps) (simp add: C_def)
    have arith: "min (length xs) C + (length xs - C) = length xs" by simp
    have ceil: "(length xs + C - 1) div C = 1 + (length xs - C + C - 1) div C"
    proof (cases "C \<le> length xs")
      case True
      then have "length xs + C - 1 = (length xs - C + C - 1) + C" using Cpos by simp
      then show ?thesis using Cpos by (metis add.commute div_add_self2 less_numeral_extra(3))
    next
      case False
      with \<open>xs \<noteq> []\<close> have "C \<le> length xs + C - 1" "length xs + C - 1 < 2 * C" by (cases xs; simp)+
      then have "(length xs + C - 1) div C = 1"
        using Cpos by (metis div_nat_eqI mult.commute mult_2_right nat_mult_1_right One_nat_def Suc_1 mult_Suc_right)
      moreover from False have "(length xs - C + C - 1) div C = 0" using Cpos by simp
      ultimately show ?thesis by simp
    qed
    show ?thesis
      unfolding unf using IH ceil arith
      by (simp add: length_sealed_chunk [OF assms(1)] C_def [symmetric])
  qed
qed


lemma example_secretbox_ok: "secretbox_ok example_secretbox"
  by (auto simp add: secretbox_ok_def example_secretbox_def)

lemma example_secretbox_length: "\<forall>m n k. length (Seal example_secretbox m n k) = length m + 16"
  using example_secretbox_ok by (simp add: secretbox_ok_def)

lemma Decrypt_loop_done:
  "int (length data) \<le> i \<Longrightarrow> Decrypt_loop sb s data k i acc = Inr acc"
  by (subst Decrypt_loop.simps) simp

lemma Decrypt_loop_step:
  assumes ok: "secretbox_ok sb"
    and n: "length n = 24"
    and sc: "sc = n @ Seal sb m n k"
    and shape: "int (length sc) = cs \<or> (rest = [] \<and> int (length sc) < cs)"
  shows "Decrypt_loop sb cs (pre @ sc @ rest) k (int (length pre)) dacc
         = Decrypt_loop sb cs (pre @ sc @ rest) k (int (length pre) + cs) (dacc @ m)"
proof -
  have len_sc: "length sc = length m + 40"
    using ok n sc by (simp add: secretbox_ok_def)
  have chunk: "(if int (length (pre @ sc @ rest)) - int (length pre) \<ge> cs
               then slice (pre @ sc @ rest) (int (length pre)) (int (length pre) + cs)
               else slice_from (pre @ sc @ rest) (int (length pre))) = Inr sc"
    using shape
  proof
    assume a: "int (length sc) = cs"
    then have "nat cs = length sc" by simp
    with a show ?thesis
      by (simp add: slice_def)
  next
    assume a: "rest = [] \<and> int (length sc) < cs"
    then show ?thesis
      by (simp add: slice_from_def slice_def)
  qed
  have to: "slice_to sc secretBoxNonceLength = Inr n"
    using n sc by (simp add: slice_to_def slice_def secretBoxNonceLength_def)
  have fr: "slice_from sc secretBoxNonceLength = Inr (Seal sb m n k)"
    using n sc by (simp add: slice_from_def slice_def secretBoxNonceLength_def)
  have opn: "Open sb (Seal sb m n k) (copy_into (replicate (nat secretBoxNonceLength) 0) n) k = Some m"
    using ok n by (simp add: secretbox_ok_def copy_into_same_length secretBoxNonceLength_def)
  have lt: "int (length pre) < int (length (pre @ sc @ rest))"
    using len_sc by simp
  show ?thesis
    apply (subst Decrypt_loop.simps)
    apply (simp only: lt if_True chunk sum.case to fr opn option.case)
    done
qed

lemma sealed_chunk_shape:
  "\<exists>n. length n = 24 \<and> sealed_chunk sb rnd unix s k j chunk = n @ Seal sb chunk n k"
  by (rule exI [of _ "copy_into (replicate 24 0) (genNonce s (rnd j) (unix j))"])
     (simp add: sealed_chunk_def Let_def secretBoxNonceLength_def)

lemma Decrypt_loop_enc_chunks:
  assumes ok: "secretbox_ok sb" and C: "0 < ChunkSize s" and cs: "cs = ChunkSize s + 40"
  shows "Decrypt_loop sb cs (pre @ enc_chunks sb rnd unix s k xs j) k (int (length pre)) dacc
         = Inr (dacc @ xs)"
proof (induction "length xs" arbitrary: xs j pre dacc rule: less_induct)
  case less
  define C where "C = nat (ChunkSize s)"
  have Cpos: "0 < C" using assms(2) by (simp add: C_def)
  show ?case
  proof (cases "xs = []")
    case True
    then show ?thesis by (simp add: enc_chunks.simps Decrypt_loop_done)
  next
    case False
    define sc where "sc = sealed_chunk sb rnd unix s k j (take C xs)"
    define rest where "rest = enc_chunks sb rnd unix s k (drop C xs) (Suc j)"
    have unf: "enc_chunks sb rnd unix s k xs j = sc @ rest"
      using False assms(2) by (subst enc_chunks.simps) (simp add: C_def sc_def rest_def)
    obtain n where n: "length n = 24" and sc: "sc = n @ Seal sb (take C xs) n k"
      using sealed_chunk_shape [of sb rnd unix s k j "take C xs"] by (auto simp: sc_def)
    have len_sc: "length sc = min (length xs) C + 40"
      using ok n sc by (simp add: secretbox_ok_def)
    show ?thesis
    proof (cases "C \<le> length xs")
      case True
      then have shape: "int (length sc) = cs \<or> (rest = [] \<and> int (length sc) < cs)"
        using len_sc C cs by (simp add: C_def)
      have shorter: "length (drop C xs) < length xs" using False Cpos by simp
      have i': "int (length pre) + cs = int (length (pre @ sc))"
        using len_sc True C cs by (simp add: C_def)
      have "Decrypt_loop sb cs (pre @ sc @ rest) k (int (length pre)) dacc
            = Decrypt_loop sb cs ((pre @ sc) @ rest) k (int (length (pre @ sc))) (dacc @ take C xs)"
        using Decrypt_loop_step [OF ok n sc shape, of pre dacc] i' by simp
      also have "\<dots> = Inr ((dacc @ take C xs) @ drop C xs)"
        unfolding rest_def by (rule less.hyps [OF shorter])
      finally show ?thesis by (simp add: unf)
    next
      case False
      then have d: "drop C xs = []" and t: "take C xs = xs" by simp_all
      have r: "rest = []" by (simp add: rest_def d enc_chunks.simps)
      have lt: "int (length xs) + 40 < cs"
        using False C cs unfolding C_def by arith
      have shape: "int (length sc) = cs \<or> (rest = [] \<and> int (length sc) < cs)"
        using len_sc False lt r by simp
      have past: "int (length (pre @ sc @ rest)) \<le> int (length pre) + cs"
        using len_sc False lt r by simp
      have "Decrypt_loop sb cs (pre @ sc @ rest) k (int (length pre)) dacc
            = Decrypt_loop sb cs (pre @ sc @ rest) k (int (length pre) + cs) (dacc @ take C xs)"
        using Decrypt_loop_step [OF ok n sc shape, of pre dacc] .
      also have "\<dots> = Inr (dacc @ take C xs)"
        by (rule Decrypt_loop_done [OF past])
      finally show ?thesis by (simp add: unf t)
    qed
  qed
qed

lemma Encrypt_eq:
  assumes "0 < ChunkSize s" "length key = 32"
  shows "Encrypt sb rnd unix s p key = Some (Inr (enc_chunks sb rnd unix s key p 0))"
  using assms Encrypt_loop_eq [of s 0 sb rnd unix p key 0 "[]"]
  by (simp add: Encrypt_def secretBoxKeyLength_def copy_into_same_length)

lemma wrap_int_id: "- (2 ^ 63) \<le> x \<Longrightarrow> x < 2 ^ 63 \<Longrightarrow> wrap_int x = x"
  by (simp add: wrap_int_def)

lemma Decrypt_enc_chunks:
  assumes "secretbox_ok sb" "0 < ChunkSize s" "ChunkSize s' = ChunkSize s" "length key = 32"
    and "ChunkSize s + 40 < 2 ^ 63"
  shows "Decrypt sb s' (enc_chunks sb rnd unix s key p 0) key = Inr p"
proof -
  have w: "wrap_int (ChunkSize s + 40) = ChunkSize s + 40"
    using assms(2,5) by (intro wrap_int_id) simp_all
  show ?thesis
    using assms(3,4) w
      Decrypt_loop_enc_chunks [OF assms(1,2) refl, of "[]" rnd unix key p 0 "[]"]
    by (simp add: Decrypt_def secretBoxKeyLength_def secretBoxDecryptionOffset_def
        copy_into_same_length)
qed

lemma ceil_formula:
  fixes L C :: nat
  assumes "0 < C"
  shows "L + 40 * ((L + C - 1) div C) = ((L + C - 1) div C) * (C + 40) \<longleftrightarrow> C dvd L"
proof -
  define q where "q = (L + C - 1) div C"
  have "L + 40 * q = q * (C + 40) \<longleftrightarrow> L = q * C"
    by (simp add: algebra_simps)
  also have "\<dots> \<longleftrightarrow> C dvd L"
  proof
    assume "L = q * C" then show "C dvd L" by simp
  next
    assume "C dvd L"
    then obtain m where m: "L = C * m" by (auto simp: dvd_def)
    have "(C * m + C - 1) div C = m"
    proof -
      have e1: "C * m + C - 1 = m * C + (C - 1)" using assms by (simp add: algebra_simps)
      have e2: "(m * C + (C - 1)) div C = m + (C - 1) div C"
        using assms by (intro div_mult_self3) simp
      have e3: "(C - 1) div C = 0" using assms by simp
      show ?thesis by (simp only: e1 e2 e3 add_0_right)
    qed
    then show "L = q * C" by (simp add: q_def m)
  qed
  finally show ?thesis by (simp add: q_def)
qed

text \<open>
  Claim C3, as the code has it. For every plaintext \<open>p\<close>, every 32-byte key and every cipher
  whose chunk size \<open>C\<close> is positive and leaves room for the 40 bytes that \<^verbatim>\<open>Decrypt\<close> adds to it
  (\<open>C + 40\<close> is an \<^verbatim>\<open>int\<close>, below \<open>2 ^ 63\<close>), \<^verbatim>\<open>Encrypt\<close> returns a ciphertext and \<^verbatim>\<open>Decrypt\<close> of
  it under the same key is \<open>p\<close> again, whatever nonces were drawn (for a secretbox whose
  \<^verbatim>\<open>Open\<close> undoes its \<^verbatim>\<open>Seal\<close>).
\<close>

theorem Decrypt_Encrypt_roundtrip:
  assumes "secretbox_ok sb" and "0 < ChunkSize s" and "ChunkSize s + 40 < 2 ^ 63"
    and "length k = 32"
  shows "\<exists>ct. Encrypt sb rnd unix s p k = Some (Inr ct) \<and> Decrypt sb s ct k = Inr p"
  using Encrypt_eq [OF assms(2,4)] Decrypt_enc_chunks [OF assms(1,2) refl assms(4,3)]
  by simp

theorem Decrypt_Encrypt_roundtrip_witness:
  "\<exists>ct. Encrypt example_secretbox (\<lambda>j. [5, 6]) (\<lambda>j. 1700000000)
            \<lparr>Nonce = TimeSeriesNonce, ChunkSize = 2\<rparr> [1, 2, 3] (replicate 32 9) = Some (Inr ct)
        \<and> Decrypt example_secretbox \<lparr>Nonce = TimeSeriesNonce, ChunkSize = 2\<rparr> ct (replicate 32 9)
            = Inr [1, 2, 3]"
proof -
  have c: "0 < ChunkSize \<lparr>Nonce = TimeSeriesNonce, ChunkSize = 2\<rparr>" by simp
  have b: "ChunkSize \<lparr>Nonce = TimeSeriesNonce, ChunkSize = 2\<rparr> + 40 < 2 ^ 63" by simp
  have k: "length (replicate 32 (9 :: byte)) = 32" by simp
  show ?thesis
    by (rule Decrypt_Encrypt_roundtrip [OF example_secretbox_ok c b k])
qed

text \<open>
  With the largest chunk size an \<^verbatim>\<open>int\<close> holds, \<open>2 ^ 63 - 1\<close>, \<^verbatim>\<open>Encrypt\<close> seals the one-byte
  plaintext \<open>[7]\<close> as a single chunk of 41 bytes. In \<^verbatim>\<open>Decrypt\<close> the chunk size plus 40 wraps
  around to \<open>39 - 2 ^ 63\<close>, \<^verbatim>\<open>len(data[i:]) >= chunkSize\<close> holds and \<^verbatim>\<open>data[i : i+chunkSize]\<close> has a
  negative upper bound: the call panics instead of returning the plaintext.
\<close>

theorem Decrypt_wrapped_chunk_size_counterexample:
  "0 < ChunkSize \<lparr>Nonce = RandomNonce, ChunkSize = 9223372036854775807\<rparr>
   \<and> (\<exists>ct. Encrypt example_secretbox (\<lambda>j. []) (\<lambda>j. 0)
               \<lparr>Nonce = RandomNonce, ChunkSize = 9223372036854775807\<rparr> [7] (replicate 32 0)
             = Some (Inr ct)
           \<and> length ct = 41
           \<and> Decrypt example_secretbox \<lparr>Nonce = RandomNonce, ChunkSize = 9223372036854775807\<rparr>
                 ct (replicate 32 0)
               = Inl (Panic ''slice bounds out of range''))"
proof -
  let ?s = "\<lparr>Nonce = RandomNonce, ChunkSize = 9223372036854775807\<rparr>"
  let ?k = "replicate 32 (0 :: byte)"
  let ?ct = "enc_chunks example_secretbox (\<lambda>j. []) (\<lambda>j. 0) ?s ?k [7] 0"
  have c: "0 < ChunkSize ?s" by simp
  have k: "length ?k = 32" by simp
  have e: "Encrypt example_secretbox (\<lambda>j. []) (\<lambda>j. 0) ?s [7] ?k = Some (Inr ?ct)"
    by (rule Encrypt_eq [OF c k])
  have l: "length ?ct = 41"
    using length_enc_chunks [OF example_secretbox_length c, of "\<lambda>j. []" "\<lambda>j. 0" ?k "[7]" 0]
    by simp
  have w: "wrap_int (ChunkSize ?s + secretBoxDecryptionOffset) = - 9223372036854775769"
    by (simp add: wrap_int_def secretBoxDecryptionOffset_def)
  have d: "Decrypt example_secretbox ?s ?ct ?k = Inl (Panic ''slice bounds out of range'')"
    unfolding Decrypt_def Let_def w
    by (subst Decrypt_loop.simps) (simp add: l secretBoxKeyLength_def slice_def)
  show ?thesis
    using c e l d by blast
qed

lemma Encrypt_length_aux:
  assumes "\<forall>m n k. length (Seal sb m n k) = length m + 16" and "0 < ChunkSize s" and "length key = 32"
  shows "\<exists>ct. Encrypt sb rnd unix s p key = Some (Inr ct)
           \<and> length ct = length p + 40 * ((length p + nat (ChunkSize s) - 1) div nat (ChunkSize s))"
  using Encrypt_eq [OF assms(2,3)] length_enc_chunks [OF assms(1,2)]
  by simp

text \<open>
  Claim C7, as the code has it. For a plaintext of length \<open>L\<close> and chunk size \<open>C > 0\<close> the
  ciphertext has length \<open>L + 40 * \<lceil>L / C\<rceil>\<close>: every chunk carries 40 bytes (nonce and
  authenticator) and the last chunk is not padded. That is \<open>\<lceil>L / C\<rceil> * (C + 40)\<close> exactly when
  \<open>C\<close> divides \<open>L\<close>.
\<close>

theorem Encrypt_ciphertext_length:
  assumes "\<forall>m n k. length (Seal sb m n k) = length m + 16" and "0 < ChunkSize s" and "length key = 32"
  shows "\<exists>ct. Encrypt sb rnd unix s p key = Some (Inr ct)
           \<and> length ct = length p + 40 * ((length p + nat (ChunkSize s) - 1) div nat (ChunkSize s))
           \<and> (length ct = ((length p + nat (ChunkSize s) - 1) div nat (ChunkSize s)) * (nat (ChunkSize s) + 40)
                \<longleftrightarrow> nat (ChunkSize s) dvd length p)"
proof -
  from Encrypt_length_aux [OF assms] obtain ct where
    e: "Encrypt sb rnd unix s p key = Some (Inr ct)" and
    l: "length ct = length p + 40 * ((length p + nat (ChunkSize s) - 1) div nat (ChunkSize s))"
    by blast
  have pos: "0 < nat (ChunkSize s)" using assms(2) by simp
  show ?thesis
    using e l ceil_formula [OF pos, of "length p"] by simp
qed

theorem Encrypt_ciphertext_length_witness:
  "\<exists>ct. Encrypt example_secretbox (\<lambda>j. []) (\<lambda>j. 0) \<lparr>Nonce = RandomNonce, ChunkSize = 2\<rparr>
            [1, 2, 3] (replicate 32 9) = Some (Inr ct)
        \<and> length ct = 83"
proof -
  have c: "0 < ChunkSize \<lparr>Nonce = RandomNonce, ChunkSize = 2\<rparr>" by simp
  have k: "length (replicate 32 (9 :: byte)) = 32" by simp
  show ?thesis
    using Encrypt_ciphertext_length [OF example_secretbox_length c k, of "\<lambda>j. []" "\<lambda>j. 0" "[1, 2, 3]"]
    by auto
qed

text \<open>
  Claim C7 as stated fails: one byte under chunk size 2 encrypts to 41 bytes, not to
  \<open>\<lceil>1 / 2\<rceil> * (2 + 40) = 42\<close>.
\<close>

theorem Encrypt_padded_length_counterexample:
  "map_option (map_sum id length)
     (Encrypt example_secretbox (\<lambda>j. []) (\<lambda>j. 0) \<lparr>Nonce = RandomNonce, ChunkSize = 2\<rparr>
        [7] (replicate 32 0)) = Some (Inr 41)
   \<and> (41 :: nat) \<noteq> ((1 + 2 - 1) div 2) * (2 + 40)"
proof -
  have c: "0 < ChunkSize \<lparr>Nonce = RandomNonce, ChunkSize = 2\<rparr>" by simp
  have k: "length (replicate 32 (0 :: byte)) = 32" by simp
  show ?thesis
    using Encrypt_length_aux [OF example_secretbox_length c k, of "\<lambda>j. []" "\<lambda>j. 0" "[7]"]
    by auto
qed

section \<open>Lookup generation\<close>








subsection \<open>Distinct blocks have distinct tags\<close>


















section \<open>The session: sending and retrieving\<close>

subsection \<open>Exhausted tables, frames and the readable chat log\<close>

lemma FormatInt_maxMessageSize: "FormatInt maxMessageSize = ''250000''"
  by (simp add: maxMessageSize_def FormatInt_eval)

lemma popRandom_empty: "popRandom r [] = Inl (Panic ''crypto/rand: argument to Int is <= 0'')"
  by (simp add: popRandom_def getRandom_def rand_Int_def)

lemma SendMessage_exhausted:
  assumes "int (length b) \<le> maxMessageSize"
    and "getChat ev w chatID = Inr c"
    and "json_Unmarshal ev b = Inr d"
    and "json_Marshal ev (d\<lparr>Parent := LastSent c, Timestamp := clock_UnixNano ev, TTL := chat_TTL c\<rparr>) = Inr dataBytes"
    and "getLookup ev w chatID (PeerID c) = Inr []"
  shows "SendMessage ev w chatID b = Some (Inl (Panic ''crypto/rand: argument to Int is <= 0''), w)"
  using assms by (simp add: SendMessage_def popRandom_empty)

lemma popKey_empty: "popKey [] tag = ([], [])"
  by (simp add: popKey_def lookup_get_def)

lemma retrieveMessage_exhausted:
  assumes "getLookup ev w chatID peerID = Inr []"
  shows "\<exists>e. retrieveMessage ev w chatID hash peerID = (Inl e, w)"
  using assms
  by (auto simp: retrieveMessage_def popKey_empty split: sum.splits option.splits)

lemma Decrypt_no_key: "Decrypt sb s data [] = Inl (Err ''invalid key length'')"
  by (simp add: Decrypt_def secretBoxKeyLength_def)



lemma session_set_other:
  assumes "session_set ev w key v = (r, w')" and "key \<noteq> k"
  shows "kv w' k = kv w k"
  using assms by (auto simp: session_set_def split: option.splits)

lemma session_set_sent:
  assumes "session_set ev w key v = (r, w')"
  shows "blob_sent w' = blob_sent w \<and> rendezvous_sent w' = rendezvous_sent w"
  using assms by (auto simp: session_set_def split: option.splits)







lemma Storage_Get_capacity:
  "Storage_Get ev peerID hash = Inr (b, spare) \<Longrightarrow> 512 \<le> length b + length spare"
  by (auto simp: Storage_Get_def split: blob_answer.splits)




subsection \<open>The example run\<close>

lemma example_keys_with:
  "config_key (example_env_with parent ans) ''c1'' = ''chats/c1/alice/config''"
  "chatlog_key (example_env_with parent ans) ''c1'' = ''chats/c1/alice/chatlog''"
  "lookup_key (example_env_with parent ans) ''c1'' ''alice'' = ''chats/c1/alice/lookups/alice''"
  "lookup_key (example_env_with parent ans) ''c1'' ''bob'' = ''chats/c1/alice/lookups/bob''"
  "lookup_key (example_env_with parent ans) ''c1'' ''carol'' = ''chats/c1/alice/lookups/carol''"
  by (simp_all add: config_key_def chatlog_key_def lookup_key_def example_env_with_def)











lemma example_state_kv:
  "kv (example_state c lb lc cl) ''chats/c1/alice/config'' = Some (ChatGob c)"
  "kv (example_state c lb lc cl) ''chats/c1/alice/chatlog'' = Some (ChatLogGob cl)"
  "kv (example_state c lb lc cl) ''chats/c1/alice/lookups/alice'' = Some (LookupGob [])"
  "kv (example_state c lb lc cl) ''chats/c1/alice/lookups/bob'' = Some (LookupGob lb)"
  "kv (example_state c lb lc cl) ''chats/c1/alice/lookups/carol'' = Some (LookupGob lc)"
  by (simp_all add: example_state_def)

lemma example_state_set:
  "(example_state c lb lc cl)\<lparr>kv := (kv (example_state c lb lc cl))(''chats/c1/alice/config'' \<mapsto> ChatGob c')\<rparr>
     = example_state c' lb lc cl"
  "(example_state c lb lc cl)\<lparr>kv := (kv (example_state c lb lc cl))(''chats/c1/alice/chatlog'' \<mapsto> ChatLogGob cl')\<rparr>
     = example_state c lb lc cl'"
  "(example_state c lb lc cl)\<lparr>kv := (kv (example_state c lb lc cl))(''chats/c1/alice/lookups/bob'' \<mapsto> LookupGob lb')\<rparr>
     = example_state c lb' lc cl"
  "(example_state c lb lc cl)\<lparr>kv := (kv (example_state c lb lc cl))(''chats/c1/alice/lookups/carol'' \<mapsto> LookupGob lc')\<rparr>
     = example_state c lb lc' cl"
  by (auto simp add: example_state_def intro!: ext)



lemma example_session_with:
  "getChat (example_env_with parent ans) (example_state c lb lc cl) ''c1'' = Inr c"
  "GetChatLog (example_env_with parent ans) (example_state c lb lc cl) ''c1'' = Inr cl"
  "getLookup (example_env_with parent ans) (example_state c lb lc cl) ''c1'' ''alice'' = Inr []"
  "getLookup (example_env_with parent ans) (example_state c lb lc cl) ''c1'' ''bob'' = Inr lb"
  "getLookup (example_env_with parent ans) (example_state c lb lc cl) ''c1'' ''carol'' = Inr lc"
  "setChat (example_env_with parent ans) (example_state c lb lc cl) ''c1'' c'
     = (None, example_state c' lb lc cl)"
  "setChatLog (example_env_with parent ans) (example_state c lb lc cl) ''c1'' cl'
     = (None, example_state c lb lc cl')"
  "setLookup (example_env_with parent ans) (example_state c lb lc cl) ''c1'' ''bob'' lb'
     = (None, example_state c lb' lc cl)"
  "setLookup (example_env_with parent ans) (example_state c lb lc cl) ''c1'' ''carol'' lc'
     = (None, example_state c lb lc' cl)"
  by (simp_all add: getChat_def GetChatLog_def getLookup_def setChat_def setChatLog_def setLookup_def
        session_get_def session_set_def example_keys_with example_state_kv example_state_set)
     (simp_all add: example_env_with_def example_state_set)

lemmas example_session =
  example_session_with [where parent = "[]" and ans = "Fetch_error ''no servers available''",
    folded example_env_def]

lemma example_oracles_with:
  "nacl (example_env_with parent ans) = example_secretbox"
  "clock_UnixNano (example_env_with parent ans) = 1000"
  "rendezvous_fetch (example_env_with parent ans) ''bob''
     = Inr (500, example_bytes 1 24 @ example_sealed (example_bytes 2 32) ''QmB'')"
  "rendezvous_fetch (example_env_with parent ans) ''carol''
     = Inr (600, example_bytes 3 24 @ example_sealed (example_bytes 4 32) ''QmC'')"
  "blob_fetch (example_env_with parent ans) ''bob'' ''QmB'' = ans"
  "blob_fetch (example_env_with parent ans) ''carol'' ''QmC''
     = Body (example_bytes 5 24 @ example_sealed (example_bytes 6 32) ''{}'') []"
  "blob_fetch (example_env_with parent ans) ''carol'' ''QmP'' = Fetch_error ''no servers available''"
  "json_Unmarshal (example_env_with parent ans) b = Inr (example_data\<lparr>Parent := parent\<rparr>)"
  "json_Marshal_log (example_env_with parent ans) entries
     = Inr (bytes_of_string (concat (map ID entries)))"
  by (simp_all add: example_env_with_def)

lemma example_oracles:
  "nacl example_env = example_secretbox"
  "clock_UnixNano example_env = 1000"
  "json_Unmarshal example_env b = Inr example_data"
  "json_Marshal_log example_env entries = Inr (bytes_of_string (concat (map ID entries)))"
  unfolding example_env_def by (simp_all add: example_oracles_with example_data_def)














lemma loop_continue_after_success:
  assumes "peerID \<noteq> self"
    and "getRendezvousHash ev w chatID peerID = (Inr hash, w1)" and "hash \<noteq> []"
    and "retrieveMessage ev w1 chatID hash peerID = (Inr d, w2)"
    and "logChatData ev w2 chatID peerID hash d = (None, w3)"
    and "recursivelyLogParents ev w3 chatID peerID d = (None, w4)"
  shows "RetrieveMessages_loop ev chatID self (peerID # rest) w = RetrieveMessages_loop ev chatID self rest w4"
  using assms by simp









subsection \<open>The loop over the peers\<close>




















subsection \<open>Duplicate checks\<close>

lemma Contains_iff: "Contains s sub \<longleftrightarrow> (\<exists>ps ss. s = ps @ sub @ ss)"
proof (induction s)
  case Nil
  then show ?case by auto
next
  case (Cons c s)
  show ?case
  proof
    assume "Contains (c # s) sub"
    then consider "prefix sub (c # s)" | "Contains s sub" by auto
    then show "\<exists>ps ss. c # s = ps @ sub @ ss"
    proof cases
      case 1
      then obtain ss where "c # s = sub @ ss" by (auto simp: prefix_def)
      then have "c # s = [] @ sub @ ss" by simp
      then show ?thesis by blast
    next
      case 2
      with Cons obtain ps ss where "s = ps @ sub @ ss" by blast
      then have "c # s = (c # ps) @ sub @ ss" by simp
      then show ?thesis by blast
    qed
  next
    assume "\<exists>ps ss. c # s = ps @ sub @ ss"
    then obtain ps ss where eq: "c # s = ps @ sub @ ss" by blast
    show "Contains (c # s) sub"
    proof (cases ps)
      case Nil
      with eq have "prefix sub (c # s)" by (simp add: prefix_def)
      then show ?thesis by simp
    next
      case (Cons p ps')
      with eq have "s = ps' @ sub @ ss" by simp
      with Cons.IH have "Contains s sub" by blast
      then show ?thesis by simp
    qed
  qed
qed

lemma Contains_empty: "Contains s []"
  by (cases s) simp_all

lemma HashInLog_iff:
  "HashInLog cl h \<longleftrightarrow> (\<exists>k e ps ss. (k, e) \<in> set cl \<and> k = ps @ h @ ss)"
  by (auto simp: HashInLog_def list_ex_iff Contains_iff)

lemma HashInLog_empty: "HashInLog cl [] \<longleftrightarrow> cl \<noteq> []"
  by (cases cl) (auto simp: HashInLog_def Contains_empty)

lemma recursivelyLogParents_in_log:
  assumes "GetChatLog ev w chatID = Inr cl" and "HashInLog cl (Parent data)"
  shows "recursivelyLogParents ev w chatID peerID data = (None, w)"
  using assms by (simp add: recursivelyLogParents.simps)

lemma setLookup_chatlog:
  assumes "setLookup ev w chatID peerID l = (r, w1)"
  shows "GetChatLog ev w1 chatID = GetChatLog ev w chatID"
  using session_set_other [of ev w "lookup_key ev chatID peerID" "LookupGob l" r w1 "chatlog_key ev chatID"]
        assms chatlog_key_neq_lookup_key [of ev chatID peerID]
  by (auto simp: setLookup_def GetChatLog_def session_get_def)

lemma getRendezvousHash_not_in_log:
  assumes "getRendezvousHash ev w chatID peerID = (Inr h, w')" and "h \<noteq> []"
    and "GetChatLog ev w chatID = Inr cl"
  shows "\<not> HashInLog cl h"
  using assms
  by (auto simp: getRendezvousHash_def
           split: sum.splits option.splits prod.splits if_splits dest!: setLookup_chatlog)

text \<open>
  Claim C9. \<^verbatim>\<open>HashInLog\<close> is true exactly when the hash is a substring of some key of the
  log, so it is true of the empty string for every non-empty log. Both duplicate checks
  of retrieval use it: \<^verbatim>\<open>recursivelyLogParents\<close> stops without retrieving a parent whose hash
  is a substring of a key, and \<^verbatim>\<open>getRendezvousHash\<close> never returns a hash that is a substring
  of a key (the caller then skips the peer).
\<close>

theorem HashInLog_substring:
  "(HashInLog cl h \<longleftrightarrow> (\<exists>k e ps ss. (k, e) \<in> set cl \<and> k = ps @ h @ ss))
   \<and> (HashInLog cl [] \<longleftrightarrow> cl \<noteq> [])
   \<and> (GetChatLog ev w chatID = Inr cl \<and> HashInLog cl (Parent data)
        \<longrightarrow> recursivelyLogParents ev w chatID peerID data = (None, w))
   \<and> (GetChatLog ev w chatID = Inr cl \<and> HashInLog cl h \<and> h \<noteq> []
        \<longrightarrow> fst (getRendezvousHash ev w chatID peerID) \<noteq> Inr h)"
proof (intro conjI impI)
  show "HashInLog cl h \<longleftrightarrow> (\<exists>k e ps ss. (k, e) \<in> set cl \<and> k = ps @ h @ ss)"
    by (rule HashInLog_iff)
  show "HashInLog cl [] \<longleftrightarrow> cl \<noteq> []"
    by (rule HashInLog_empty)
  show "recursivelyLogParents ev w chatID peerID data = (None, w)"
    if "GetChatLog ev w chatID = Inr cl \<and> HashInLog cl (Parent data)"
    using that recursivelyLogParents_in_log by blast
  show "fst (getRendezvousHash ev w chatID peerID) \<noteq> Inr h"
    if h: "GetChatLog ev w chatID = Inr cl \<and> HashInLog cl h \<and> h \<noteq> []"
  proof
    assume "fst (getRendezvousHash ev w chatID peerID) = Inr h"
    then obtain w' where "getRendezvousHash ev w chatID peerID = (Inr h, w')"
      by (cases "getRendezvousHash ev w chatID peerID") auto
    with h getRendezvousHash_not_in_log show False by blast
  qed
qed

theorem HashInLog_substring_witness:
  "HashInLog [(''15-Qm1'', example_entry 15 0)] ''15''
   \<and> HashInLog [(''15-Qm1'', example_entry 15 0)] []
   \<and> \<not> HashInLog [] []
   \<and> recursivelyLogParents example_env
         (example_state example_chat [] [] [(''15-Qm1'', example_entry 15 0)]) ''c1'' ''bob''
         (example_data\<lparr>Parent := ''15''\<rparr>)
       = (None, example_state example_chat [] [] [(''15-Qm1'', example_entry 15 0)])
   \<and> fst (getRendezvousHash example_env
             (example_state example_chat [(EncodeToString (example_bytes 1 24), example_bytes 2 32)] []
                [(''15-QmBcd'', example_entry 15 0)]) ''c1'' ''bob'')
       \<noteq> Inr ''QmB''"
proof -
  have k1: "''15-Qm1'' = [] @ ''15'' @ ''-Qm1''" by simp
  have k2: "''15-QmBcd'' = ''15-'' @ ''QmB'' @ ''cd''" by simp
  have in1: "HashInLog [(''15-Qm1'', example_entry 15 0)] ''15''"
    using HashInLog_substring [of "[(''15-Qm1'', example_entry 15 0)]" "''15''"] k1
    by (metis list.set_intros(1))
  have in2: "HashInLog [(''15-QmBcd'', example_entry 15 0)] ''QmB''"
    using HashInLog_substring [of "[(''15-QmBcd'', example_entry 15 0)]" "''QmB''"] k2
    by (metis list.set_intros(1))
  have e1: "HashInLog [(''15-Qm1'', example_entry 15 0)] []"
    using HashInLog_substring [of "[(''15-Qm1'', example_entry 15 0)]", THEN conjunct2, THEN conjunct1]
    by simp
  have e2: "\<not> HashInLog [] []"
    using HashInLog_substring [of "[] :: ChatLog", THEN conjunct2, THEN conjunct1]
    by simp
  have p: "Parent (example_data\<lparr>Parent := ''15''\<rparr>) = ''15''" by simp
  have r: "recursivelyLogParents example_env
         (example_state example_chat [] [] [(''15-Qm1'', example_entry 15 0)]) ''c1'' ''bob''
         (example_data\<lparr>Parent := ''15''\<rparr>)
       = (None, example_state example_chat [] [] [(''15-Qm1'', example_entry 15 0)])"
    using HashInLog_substring
            [where ev = example_env and chatID = "''c1''" and data = "example_data\<lparr>Parent := ''15''\<rparr>"
               and cl = "[(''15-Qm1'', example_entry 15 0)]"
               and w = "example_state example_chat [] [] [(''15-Qm1'', example_entry 15 0)]"]
          in1 example_session(2) p
    by metis
  have g: "fst (getRendezvousHash example_env
             (example_state example_chat [(EncodeToString (example_bytes 1 24), example_bytes 2 32)] []
                [(''15-QmBcd'', example_entry 15 0)]) ''c1'' ''bob'')
       \<noteq> Inr ''QmB''"
    using HashInLog_substring
            [where ev = example_env and chatID = "''c1''" and h = "''QmB''"
               and cl = "[(''15-QmBcd'', example_entry 15 0)]"
               and w = "example_state example_chat [(EncodeToString (example_bytes 1 24), example_bytes 2 32)] []
                          [(''15-QmBcd'', example_entry 15 0)]"]
          in2 example_session(2)
    by (metis list.distinct(1))
  show ?thesis using in1 e1 e2 r g by blast
qed

subsection \<open>Sending\<close>

text \<open>
  Claim C6. For a message longer than 250,000 bytes \<^verbatim>\<open>SendMessage\<close> returns the size error
  and the state it was called in: the store (lookup tables, chat, chat log) is untouched
  and nothing has been handed to the blob or rendezvous backend.
\<close>

theorem SendMessage_too_large:
  "int (length b) > 250000 \<longrightarrow>
     SendMessage ev w chatID b
       = Some (Inl (Err ''messag sized exceeds max size of 250000 bytes''), w)"
  by (simp add: SendMessage_def FormatInt_maxMessageSize) (simp add: maxMessageSize_def)

theorem SendMessage_too_large_witness:
  "SendMessage example_env example_world ''c1'' (replicate 250001 0)
     = Some (Inl (Err ''messag sized exceeds max size of 250000 bytes''), example_world)"
  using SendMessage_too_large [of "replicate 250001 0" example_env example_world "''c1''"]
  by simp

text \<open>
  Claim C4 on the code. \<^verbatim>\<open>popRandom\<close> on the empty table does not return an error: the
  call \<^verbatim>\<open>rand.Int(rand.Reader, big.NewInt(0))\<close> in \<^verbatim>\<open>getRandom\<close> panics, and so does every
  \<^verbatim>\<open>SendMessage\<close> that reaches its first \<^verbatim>\<open>popRandom\<close> with the sender's table exhausted.
  Retrieval with an exhausted table fails with an error and leaves the state as it was.
\<close>

theorem popRandom_exhausted_table:
  "popRandom r [] = Inl (Panic ''crypto/rand: argument to Int is <= 0'')
   \<and> (int (length b) \<le> maxMessageSize \<and> getChat ev w chatID = Inr c \<and> json_Unmarshal ev b = Inr d
       \<and> json_Marshal ev (d\<lparr>Parent := LastSent c, Timestamp := clock_UnixNano ev, TTL := chat_TTL c\<rparr>)
           = Inr dataBytes
       \<and> getLookup ev w chatID (PeerID c) = Inr []
       \<longrightarrow> SendMessage ev w chatID b
             = Some (Inl (Panic ''crypto/rand: argument to Int is <= 0''), w))
   \<and> (getLookup ev w chatID peerID = Inr []
       \<longrightarrow> (\<exists>e. retrieveMessage ev w chatID hash peerID = (Inl e, w)))"
  using popRandom_empty SendMessage_exhausted [of b ev w chatID c d dataBytes]
        retrieveMessage_exhausted [of ev w chatID peerID hash]
  by blast

theorem popRandom_exhausted_table_witness:
  "SendMessage example_env example_world ''c1'' (bytes_of_string ''{}'')
     = Some (Inl (Panic ''crypto/rand: argument to Int is <= 0''), example_world)
   \<and> (\<exists>e. retrieveMessage example_env example_world ''c1'' ''QmA'' ''alice'' = (Inl e, example_world))"
proof -
  note main = popRandom_exhausted_table
  have pid: "PeerID example_chat = ''alice''" by (simp add: example_chat_def)
  have len: "int (length (bytes_of_string ''{}'')) \<le> maxMessageSize"
    by (simp add: bytes_of_string_def maxMessageSize_def)
  have jm: "json_Marshal example_env
              (example_data\<lparr>Parent := LastSent example_chat, Timestamp := clock_UnixNano example_env,
                             TTL := chat_TTL example_chat\<rparr>)
             = Inr (bytes_of_string ''hello'')"
    by (simp add: example_env_def example_env_with_def example_data_def)
  have gl: "getLookup example_env example_world ''c1'' ''alice'' = Inr []"
    by (simp add: example_world_def example_session)
  have h: "int (length (bytes_of_string ''{}'')) \<le> maxMessageSize
           \<and> getChat example_env example_world ''c1'' = Inr example_chat
           \<and> json_Unmarshal example_env (bytes_of_string ''{}'') = Inr example_data
           \<and> json_Marshal example_env
                (example_data\<lparr>Parent := LastSent example_chat, Timestamp := clock_UnixNano example_env,
                               TTL := chat_TTL example_chat\<rparr>)
               = Inr (bytes_of_string ''hello'')
           \<and> getLookup example_env example_world ''c1'' (PeerID example_chat) = Inr []"
    using len jm gl by (simp add: pid example_world_def example_session example_oracles)
  have a: "SendMessage example_env example_world ''c1'' (bytes_of_string ''{}'')
     = Some (Inl (Panic ''crypto/rand: argument to Int is <= 0''), example_world)"
    using main [where b = "bytes_of_string ''{}''" and ev = example_env and w = example_world
                  and chatID = "''c1''" and c = example_chat and d = example_data
                  and dataBytes = "bytes_of_string ''hello''"] h
    by blast
  have b: "\<exists>e. retrieveMessage example_env example_world ''c1'' ''QmA'' ''alice'' = (Inl e, example_world)"
    using main [where ev = example_env and w = example_world and chatID = "''c1''"
                  and peerID = "''alice''" and hash = "''QmA''"] gl
    by blast
  show ?thesis using a b by blast
qed

end
